theory Spec2Isabelle
  imports Complex_Main "HOL-Library.Word"
begin

section \<open>Machine types and constants\<close>

text \<open>
  The program is Linux-specific (\<^verbatim>\<open>/proc\<close>, \<^verbatim>\<open>MAP_HUGETLB\<close>, 1 GiB huge pages), so
  the LP64 data model is taken: \<^verbatim>\<open>size_t\<close>, \<^verbatim>\<open>unsigned long\<close> and
  \<^verbatim>\<open>unsigned long long\<close> are 64-bit words whose arithmetic wraps around.
  \<^verbatim>\<open>long\<close> values (the VmPTE samples) and \<^verbatim>\<open>int\<close> return codes are only
  compared with constants and are modelled as \<open>int\<close>.
\<close>

type_synonym size_t = "64 word"
type_synonym ull = "64 word"

definition PAGE_SIZE_4K :: size_t where
  "PAGE_SIZE_4K = 4 * 1024"

definition PAGE_SIZE_2M :: size_t where
  "PAGE_SIZE_2M = 2 * 1024 * 1024"

definition PAGE_SIZE_1G :: size_t where
  "PAGE_SIZE_1G = 1 * 1024 * 1024 * 1024"

definition PTE_SIZE :: size_t where
  "PTE_SIZE = 8"

definition ULLONG_MAX :: ull where
  "ULLONG_MAX = 18446744073709551615"

text \<open>The \<^verbatim>\<open>errno\<close> values of Linux that the program compares against.\<close>

definition ENOMEM :: nat where
  "ENOMEM = 12"

definition EINVAL :: nat where
  "EINVAL = 22"

definition ERANGE :: nat where
  "ERANGE = 34"

datatype PageSizeMode = MODE_4K | MODE_THP | MODE_2M | MODE_1G

datatype ThpStatus = THP_UNKNOWN | THP_ALWAYS | THP_MADVISE | THP_NEVER

section \<open>Observable behaviour\<close>

text \<open>
  A run of the program is observed as the sequence of its prints and of its calls into
  the operating system, in program order. A print is recorded with its stream, the
  format string of the \<^verbatim>\<open>printf\<close>/\<^verbatim>\<open>fprintf\<close>/\<^verbatim>\<open>perror\<close> call as it stands in the
  source (without the newline escapes) and its \<^verbatim>\<open>%zu\<close> arguments; the other arguments
  (\<^verbatim>\<open>%s\<close>, \<^verbatim>\<open>%c\<close>, \<^verbatim>\<open>%d\<close>, \<^verbatim>\<open>%ld\<close>, \<^verbatim>\<open>%.2f\<close>) are left out.
\<close>

datatype stream = Stdout | Stderr

datatype map_flag = MAP_PRIVATE | MAP_ANONYMOUS | MAP_HUGETLB | MAP_HUGE_2MB | MAP_HUGE_1GB

datatype advice = MADV_NOHUGEPAGE | MADV_HUGEPAGE

datatype event =
    Print stream string "size_t list"
  | CheckThpStatus
  | GetVmPTE
  | Mmap size_t "map_flag list" "nat + size_t"
  | Madvise size_t size_t advice
  | Store size_t "8 word"
  | Getchar
  | Munmap size_t size_t

text \<open>
  What the operating system answers during one run: the command line, the result of
  \<^verbatim>\<open>check_thp_status()\<close>, the results of the two \<^verbatim>\<open>get_vmpte_kb()\<close> calls, the result
  of \<^verbatim>\<open>mmap\<close> (\<open>Inl errno\<close> for \<^verbatim>\<open>MAP_FAILED\<close>, \<open>Inr addr\<close> otherwise) and the return
  values of \<^verbatim>\<open>madvise\<close> and \<^verbatim>\<open>munmap\<close>. \<open>argc\<close> is the length of \<open>argv\<close>.
\<close>

record env =
  argv :: "string list"
  thp_status :: ThpStatus
  vmpte_before :: int
  vmpte_after :: int
  mmap_result :: "nat + size_t"
  madvise_result :: int
  munmap_result :: int

section \<open>The C library's strtoull\<close>

text \<open>
  \<^verbatim>\<open>strtoull(nptr, &endptr, 10)\<close> as ISO C (7.22.1.4) and glibc define it in the "C"
  locale, which the program never changes: leading white space is skipped, one optional
  sign is read, then the longest run of decimal digits. With no digit nothing is
  converted: the result is 0 and \<^verbatim>\<open>endptr\<close> is \<^verbatim>\<open>nptr\<close>. A value above
  \<^verbatim>\<open>ULLONG_MAX\<close> gives \<^verbatim>\<open>ULLONG_MAX\<close> with \<^verbatim>\<open>errno = ERANGE\<close>; otherwise a minus sign
  negates the value in the unsigned type and \<^verbatim>\<open>errno\<close> is left as it was.
  A C string is modelled by its characters before the terminating NUL; \<^verbatim>\<open>endptr\<close> is
  the offset from \<^verbatim>\<open>nptr\<close>. The result is (value, endptr, errno).
\<close>

definition isspace :: "char \<Rightarrow> bool" where
  "isspace c = (c \<in> set [CHR '' '', CHR 0x09, CHR 0x0A, CHR 0x0B, CHR 0x0C, CHR 0x0D])"

definition isdigit :: "char \<Rightarrow> bool" where
  "isdigit c = (48 \<le> (of_char c :: nat) \<and> (of_char c :: nat) \<le> 57)"

definition digit_value :: "char \<Rightarrow> nat" where
  "digit_value c = of_char c - 48"

definition decimal_value :: "string \<Rightarrow> nat" where
  "decimal_value ds = foldl (\<lambda>acc c. acc * 10 + digit_value c) 0 ds"

definition after_sign :: "string \<Rightarrow> string" where
  "after_sign s1 =
     (case s1 of [] \<Rightarrow> []
      | c # r \<Rightarrow> if c = CHR ''-'' \<or> c = CHR ''+'' then r else s1)"

definition strtoull :: "nat \<Rightarrow> string \<Rightarrow> ull \<times> nat \<times> nat" where
  "strtoull errno0 nptr =
     (let s1 = dropWhile isspace nptr;
          negative = (case s1 of [] \<Rightarrow> False | c # _ \<Rightarrow> c = CHR ''-'');
          s2 = after_sign s1;
          ds = takeWhile isdigit s2;
          endptr = length nptr - length (dropWhile isdigit s2);
          n = decimal_value ds
      in if ds = [] then (0, 0, errno0)
         else if n > unat ULLONG_MAX then (ULLONG_MAX, endptr, ERANGE)
         else (if negative then - of_nat n else of_nat n, endptr, errno0))"

section \<open>parse_size\<close>

text \<open>
  \<^verbatim>\<open>size_t parse_size(const char *size_str)\<close>. The function reads \<^verbatim>\<open>errno\<close> without
  having cleared it, so the value of \<^verbatim>\<open>errno\<close> at entry is a parameter. The result is
  what the function wrote to the streams and the value it returned.
\<close>

definition suffix_multiplier :: "char \<Rightarrow> size_t option" where
  "suffix_multiplier suffix =
     (if suffix = CHR ''G'' \<or> suffix = CHR ''g'' then Some (1024 * 1024 * 1024)
      else if suffix = CHR ''M'' \<or> suffix = CHR ''m'' then Some (1024 * 1024)
      else if suffix = CHR ''K'' \<or> suffix = CHR ''k'' then Some 1024
      else None)"

definition parse_size :: "nat \<Rightarrow> string \<Rightarrow> event list \<times> size_t" where
  "parse_size errno0 size_str =
     (let (val_ull, endptr, errno) = strtoull errno0 size_str in
      if endptr = 0 \<or> (val_ull = 0 \<and> errno \<noteq> 0)
      then ([Print Stderr ''Error: Invalid size value '%s'. Not a valid number.'' []], 0)
      else if val_ull = ULLONG_MAX \<and> errno = ERANGE
      then ([Print Stderr ''Error: Size value '%s' is too large.'' []], 0)
      else
        case (case drop endptr size_str of
                [] \<Rightarrow> Inr 1
              | suffix # after \<Rightarrow>
                  (case suffix_multiplier suffix of
                     None \<Rightarrow>
                       Inl [Print Stderr
                              ''Error: Invalid size suffix '%c' in '%s'. Use K, M, or G.'' []]
                   | Some m \<Rightarrow>
                       if after \<noteq> []
                       then Inl [Print Stderr
                                   (''Error: Trailing characters after suffix in '%s''
                                      @ [CHR 0x27]) []]
                       else Inr m)) of
          Inl diagnostic \<Rightarrow> (diagnostic, 0)
        | Inr multiplier \<Rightarrow>
            if val_ull > ULLONG_MAX div multiplier
            then ([Print Stderr ''Error: Size value '%s' causes overflow.'' []], 0)
            else
              let final_size = val_ull * multiplier in
              if final_size = 0 \<and> val_ull = 0
              then ([Print Stderr ''Error: Mapping size cannot be zero.'' []], 0)
              else ([], final_size))"

section \<open>calculate_overhead\<close>

definition calculate_overhead :: "size_t \<Rightarrow> size_t \<Rightarrow> size_t" where
  "calculate_overhead total_size page_size =
     (if page_size = 0 then 0
      else
        let num_pages = (total_size + page_size - 1) div page_size
        in num_pages * PTE_SIZE)"

section \<open>The touch loop\<close>

text \<open>
  \<^verbatim>\<open>for (size_t i = 0; i < map_size; i += touch_step_size) { ptr[i] = (char)(i % 256);
  touched_count++; }\<close>. The index wraps around like any \<^verbatim>\<open>size_t\<close>, so the loop need
  not end; not returning is the value \<open>None\<close>. The result is the list of the stores
  (offset into the mapping, byte written) in program order and the final
  \<^verbatim>\<open>touched_count\<close>.
\<close>

partial_function (option) touch_loop ::
  "size_t \<Rightarrow> size_t \<Rightarrow> size_t \<Rightarrow> (size_t \<times> 8 word) list \<Rightarrow> size_t
     \<Rightarrow> ((size_t \<times> 8 word) list \<times> size_t) option" where
  "touch_loop map_size touch_step_size i stores touched_count =
     (if i < map_size
      then touch_loop map_size touch_step_size (i + touch_step_size)
             (stores @ [(i, ucast (i mod 256))]) (touched_count + 1)
      else Some (stores, touched_count))"

section \<open>main\<close>

text \<open>The usage text of lines 141 to 148, printed when \<^verbatim>\<open>argc != 3\<close>.\<close>

definition usage :: "event list" where
  "usage =
     [Print Stderr ''Usage: %s <size[K|M|G]> <mode:4k|thp|2m|1g>'' [],
      Print Stderr ''  size: Mapping size (e.g., 1G, 256M)'' [],
      Print Stderr ''  mode: Page size strategy'' [],
      Print Stderr ''    4k:  Attempt 4KB pages (using madvise hint)'' [],
      Print Stderr ''    thp: Standard anonymous mapping (allow Transparent Huge Pages)'' [],
      Print Stderr ''    2m:  Explicit 2MB HugeTLB pages (requires configuration)'' [],
      Print Stderr ''    1g:  Explicit 1GB HugeTLB pages (requires configuration)'' [],
      Print Stderr ''Example: %s 1G 2m'' []]"

text \<open>
  Lines 158 to 184: the \<^verbatim>\<open>strcmp\<close> chain on \<^verbatim>\<open>argv[2]\<close>. For a known mode the result
  holds \<^verbatim>\<open>mode\<close>, \<^verbatim>\<open>mmap_flags\<close>, \<^verbatim>\<open>huge_page_size\<close> and \<^verbatim>\<open>touch_step_size\<close>;
  for any other string the error is printed and \<^verbatim>\<open>main\<close> returns 1.
\<close>

definition select_mode ::
  "string \<Rightarrow> event list \<times> (PageSizeMode \<times> map_flag list \<times> size_t \<times> size_t) option" where
  "select_mode arg =
     (if arg = ''4k''
      then ([Print Stdout ''Mode: Attempting 4KB pages (using MADV_NOHUGEPAGE hint)'' []],
            Some (MODE_4K, [MAP_PRIVATE, MAP_ANONYMOUS], 0, PAGE_SIZE_4K))
      else if arg = ''thp''
      then ([Print Stdout ''Mode: Standard anonymous mapping (allowing THP)'' []],
            Some (MODE_THP, [MAP_PRIVATE, MAP_ANONYMOUS], 0, PAGE_SIZE_4K))
      else if arg = ''2m''
      then ([Print Stdout ''Mode: Explicit 2MB HugeTLB pages'' []],
            Some (MODE_2M, [MAP_PRIVATE, MAP_ANONYMOUS] @ [MAP_HUGETLB, MAP_HUGE_2MB],
                  PAGE_SIZE_2M, PAGE_SIZE_2M))
      else if arg = ''1g''
      then ([Print Stdout ''Mode: Explicit 1GB HugeTLB pages'' []],
            Some (MODE_1G, [MAP_PRIVATE, MAP_ANONYMOUS] @ [MAP_HUGETLB, MAP_HUGE_1GB],
                  PAGE_SIZE_1G, PAGE_SIZE_1G))
      else ([Print Stderr ''Error: Invalid mode '%s'. Use 4k, thp, 2m, or 1g.'' []], None))"

text \<open>Lines 194 to 199: the advisory prints after \<^verbatim>\<open>check_thp_status()\<close>.\<close>

definition thp_warnings :: "PageSizeMode \<Rightarrow> ThpStatus \<Rightarrow> event list" where
  "thp_warnings mode status =
     (if (mode = MODE_4K \<or> mode = MODE_THP) \<and> status = THP_NEVER
      then [Print Stdout
              ''Warning: System THP is set to 'never'. Kernel will likely use 4KB pages.'' []]
      else [])
     @ (if mode = MODE_THP \<and> status = THP_UNKNOWN
        then [Print Stdout ''Warning: Could not determine system THP status.'' []]
        else [])"

text \<open>Lines 218 to 231: the report after \<^verbatim>\<open>mmap\<close> returned \<^verbatim>\<open>MAP_FAILED\<close>.\<close>

definition mmap_failure_report ::
  "PageSizeMode \<Rightarrow> nat \<Rightarrow> size_t \<Rightarrow> size_t \<Rightarrow> event list" where
  "mmap_failure_report mode err map_size huge_page_size =
     Print Stderr ''Error: mmap failed: %s (errno %d)'' []
     # (if mode = MODE_2M \<or> mode = MODE_1G
        then
          if err = ENOMEM
          then [Print Stderr
                  ''  Hint: This often means insufficient HugeTLB pages are configured.'' [],
                Print Stderr
                  ''        Check/increase '/proc/sys/vm/nr_hugepages' (for default size)'' [],
                Print Stderr
                  ''        or '/sys/kernel/mm/hugepages/hugepages-%zukB/nr_hugepages' (for specific size).''
                  [huge_page_size div 1024],
                Print Stderr ''        Ensure enough contiguous memory is available.'' []]
          else if err = EINVAL
          then [Print Stderr
                  ''  Hint: Check if mapping size (%zu) is a multiple of huge page size (%zu),''
                  [map_size, huge_page_size],
                Print Stderr
                  ''        or if the system supports HugeTLB pages of this size.'' [],
                Print Stderr ''        Flags used: 0x%x'' []]
          else []
        else [])"

text \<open>Lines 236 to 244: the \<^verbatim>\<open>madvise\<close> hints after a successful \<^verbatim>\<open>mmap\<close>.\<close>

definition madvise_hints ::
  "PageSizeMode \<Rightarrow> ThpStatus \<Rightarrow> size_t \<Rightarrow> size_t \<Rightarrow> int \<Rightarrow> event list" where
  "madvise_hints mode status addr map_size madvise_ret =
     (if mode = MODE_4K
      then Madvise addr map_size MADV_NOHUGEPAGE
           # (if madvise_ret = - 1
              then [Print Stderr ''Warning: madvise(MADV_NOHUGEPAGE) failed: %s'' []]
              else [])
      else if mode = MODE_THP \<and> status = THP_MADVISE
      then Madvise addr map_size MADV_HUGEPAGE
           # (if madvise_ret = - 1
              then [Print Stderr ''Warning: madvise(MADV_HUGEPAGE) failed: %s'' []]
              else [])
      else [])"

text \<open>Lines 257 to 270: the second VmPTE sample and its report.\<close>

definition vmpte_report :: "int \<Rightarrow> event list" where
  "vmpte_report vmpte_after_kb =
     GetVmPTE
     # (if vmpte_after_kb < 0
        then [Print Stderr
                ''Warning: Could not get final VmPTE. Change calculation skipped.'' []]
        else [Print Stdout ''Final VmPTE:   %ld kB'' [],
              Print Stdout ''VmPTE Change:  %ld kB'' [],
              Print Stdout ''--------------------------------------------------'' [],
              Print Stdout ''NOTE: VmPTE reflects the *total* process page table size.'' [],
              Print Stdout
                ''      The change observed is an *indicator*, not a precise measure'' [],
              Print Stdout
                ''      of the overhead for *this specific mapping* alone.'' [],
              Print Stdout
                ''      It can be influenced by THP, other allocations, etc.'' [],
              Print Stdout ''--------------------------------------------------'' []])"

text \<open>Lines 273 to 300: the table of theoretical overheads.\<close>

definition theoretical_overheads :: "size_t \<Rightarrow> event list" where
  "theoretical_overheads map_size =
     [Print Stdout
        ''--- Theoretical Overhead Calculation (Lowest Level Entries Only) ---'' [],
      Print Stdout
        ''If using 4KB pages: %zu entries * %d bytes = %zu bytes (%.2f KB / %.2f MB)''
        [(map_size + PAGE_SIZE_4K - 1) div PAGE_SIZE_4K,
         calculate_overhead map_size PAGE_SIZE_4K],
      if map_size \<ge> PAGE_SIZE_2M
      then Print Stdout
             ''If using 2MB pages: %zu entries * %d bytes = %zu bytes (%.2f KB / %.2f MB)''
             [(map_size + PAGE_SIZE_2M - 1) div PAGE_SIZE_2M,
              calculate_overhead map_size PAGE_SIZE_2M]
      else Print Stdout ''If using 2MB pages: N/A (mapping size < 2MB)'' [],
      if map_size \<ge> PAGE_SIZE_1G
      then Print Stdout
             ''If using 1GB pages: %zu entries * %d bytes = %zu bytes (%.2f KB / %.2f MB)''
             [(map_size + PAGE_SIZE_1G - 1) div PAGE_SIZE_1G,
              calculate_overhead map_size PAGE_SIZE_1G]
      else Print Stdout ''If using 1GB pages: N/A (mapping size < 1GB)'' [],
      Print Stdout ''--------------------------------------------------'' [],
      Print Stdout
        ''NOTE: These calculations show potential lowest-level entry overhead only.'' [],
      Print Stdout ''      They don't include intermediate page directory costs.'' [],
      Print Stdout ''      Actual overhead depends on kernel behavior (THP, etc.).'' [],
      Print Stdout ''--------------------------------------------------'' []]"

text \<open>Lines 302 to 310: the interactive checkpoint and the release of the mapping.\<close>

definition cleanup :: "size_t \<Rightarrow> size_t \<Rightarrow> int \<Rightarrow> event list" where
  "cleanup addr map_size munmap_ret =
     [Print Stdout
        ''PID: %d - You may inspect `/proc/%d/smaps` now, then press Enter...'' [],
      Getchar,
      Print Stdout ''--- Unmapping Memory ---'' [],
      Munmap addr map_size]
     @ (if munmap_ret = - 1 then [Print Stderr ''Error: munmap failed'' []] else [])"

text \<open>
  \<^verbatim>\<open>int main(int argc, char *argv[])\<close>: the observed events and the exit status, or
  \<open>None\<close> when the touch loop does not end. \<^verbatim>\<open>errno\<close> is 0 at program start and
  nothing before the call of \<^verbatim>\<open>parse_size\<close> changes it.
\<close>

definition main :: "env \<Rightarrow> (event list \<times> int) option" where
  "main e =
     (if length (argv e) \<noteq> 3 then Some (usage, 1)
      else
        let (t1, map_size) = parse_size 0 (argv e ! 1) in
        if map_size = 0 then Some (t1, 1)
        else
          case select_mode (argv e ! 2) of
            (t2, None) \<Rightarrow> Some (t1 @ t2, 1)
          | (t2, Some (mode, mmap_flags, huge_page_size, touch_step_size)) \<Rightarrow>
              if (mode = MODE_2M \<or> mode = MODE_1G) \<and> map_size mod huge_page_size \<noteq> 0
              then Some (t1 @ t2
                         @ [Print Stderr
                              ''Error: Mapping size %zu bytes must be a multiple of the huge page size (%zu bytes) for mode %s.''
                              [map_size, huge_page_size]], 1)
              else
                let t3 = t1 @ t2 @ [CheckThpStatus] @ thp_warnings mode (thp_status e)
                         @ [GetVmPTE] in
                if vmpte_before e < 0
                then Some (t3
                           @ [Print Stderr
                                ''Error: Could not get initial VmPTE from /proc/self/status. Aborting.''
                                []], 1)
                else
                  let t4 = t3
                        @ [Print Stdout ''Initial VmPTE: %ld kB'' [],
                           Print Stdout ''Mapping size: %zu bytes (%.2f MB / %.2f GB)''
                             [map_size],
                           Print Stdout ''--- Mapping Memory ---'' [],
                           Mmap map_size mmap_flags (mmap_result e)] in
                  (case mmap_result e of
                    Inl err \<Rightarrow>
                      Some (t4 @ mmap_failure_report mode err map_size huge_page_size, 1)
                  | Inr addr \<Rightarrow>
                      (case touch_loop map_size touch_step_size 0 [] 0 of
                         None \<Rightarrow> None
                       | Some (stores, touched_count) \<Rightarrow>
                           Some (t4
                                 @ madvise_hints mode (thp_status e) addr map_size
                                     (madvise_result e)
                                 @ [Print Stdout
                                      ''--- Touching Memory (1 byte per %zu KB page/stride) ---''
                                      [touch_step_size div 1024]]
                                 @ map (\<lambda>(i, v). Store i v) stores
                                 @ [Print Stdout ''Touched %zu strides.'' [touched_count]]
                                 @ vmpte_report (vmpte_after e)
                                 @ theoretical_overheads map_size
                                 @ cleanup addr map_size (munmap_result e), 0))))"

section \<open>Shapes of size strings and classes of events\<close>

text \<open>
  The grammar of size strings in the words of the specification: at least one decimal
  digit, then an optional single suffix letter in \<open>{K,k,M,m,G,g}\<close>, then the end of the
  string.
\<close>

definition size_grammar :: "string \<Rightarrow> bool" where
  "size_grammar s =
     (let ds = takeWhile isdigit s; rest = dropWhile isdigit s
      in ds \<noteq> [] \<and>
         (case rest of [] \<Rightarrow> True | c # after \<Rightarrow> c \<in> set ''KkMmGg'' \<and> after = []))"

text \<open>
  The same grammar after the prefix that \<^verbatim>\<open>strtoull\<close> skips: leading white space and
  one optional sign.
\<close>

definition accepted_shape :: "string \<Rightarrow> bool" where
  "accepted_shape s = size_grammar (after_sign (dropWhile isspace s))"

text \<open>
  A rejection by \<^verbatim>\<open>parse_size\<close>: one diagnostic on standard error and the return
  value 0.
\<close>

fun rejected :: "event list \<times> size_t \<Rightarrow> bool" where
  "rejected ([Print Stderr msg []], v) = (v = 0)"
| "rejected _ = False"

fun is_mmap :: "event \<Rightarrow> bool" where
  "is_mmap (Mmap _ _ _) = True"
| "is_mmap _ = False"

fun is_munmap :: "event \<Rightarrow> bool" where
  "is_munmap (Munmap _ _) = True"
| "is_munmap _ = False"

fun is_store :: "event \<Rightarrow> bool" where
  "is_store (Store _ _) = True"
| "is_store _ = False"

text \<open>
  The stores of \<open>k\<close> rounds of the touch loop that start at index \<open>i\<close>: round \<open>j\<close> writes
  the low byte of its index at offset \<open>i + j * s\<close>.
\<close>

definition stride_stores :: "size_t \<Rightarrow> size_t \<Rightarrow> nat \<Rightarrow> (size_t \<times> 8 word) list" where
  "stride_stores i s k =
     map (\<lambda>j. (i + of_nat j * s, ucast ((i + of_nat j * s) mod 256))) [0..<k]"

text \<open>
  The calls of a run: its events other than prints and stores into the mapping.
\<close>

fun is_call :: "event \<Rightarrow> bool" where
  "is_call (Print _ _ _) = False"
| "is_call (Store _ _) = False"
| "is_call _ = True"

definition calls :: "event list \<Rightarrow> event list" where
  "calls tr = filter is_call tr"

text \<open>
  The fatal classes in the words of the specification: wrong argument count,
  unparsable size (\<^verbatim>\<open>parse_size\<close> returns 0), invalid mode token, misaligned size for
  the huge-page modes, failure of the baseline VmPTE probe, failure of \<^verbatim>\<open>mmap\<close>.
\<close>

definition fatal :: "env \<Rightarrow> bool" where
  "fatal e =
     (length (argv e) \<noteq> 3
      \<or> snd (parse_size 0 (argv e ! 1)) = 0
      \<or> argv e ! 2 \<notin> set [''4k'', ''thp'', ''2m'', ''1g'']
      \<or> (argv e ! 2 = ''2m'' \<and> snd (parse_size 0 (argv e ! 1)) mod 2097152 \<noteq> 0)
      \<or> (argv e ! 2 = ''1g'' \<and> snd (parse_size 0 (argv e ! 1)) mod 1073741824 \<noteq> 0)
      \<or> vmpte_before e < 0
      \<or> isl (mmap_result e))"

section \<open>Warning diagnostics\<close>

text \<open>
  A warning diagnostic is a print whose text starts with "Warning:", or the report of a
  failed \<^verbatim>\<open>munmap\<close> (the \<^verbatim>\<open>perror\<close> of line 309).
\<close>

definition warning_text :: "string \<Rightarrow> bool" where
  "warning_text fmt = (take 8 fmt = ''Warning:'' \<or> fmt = ''Error: munmap failed'')"

text \<open>The two advisory warnings about the THP policy, lines 195 and 198.\<close>

definition thp_advisory :: "string \<Rightarrow> bool" where
  "thp_advisory fmt =
     (fmt = ''Warning: System THP is set to 'never'. Kernel will likely use 4KB pages.''
      \<or> fmt = ''Warning: Could not determine system THP status.'')"

text \<open>
  An event is routed when, if it prints a warning diagnostic, an advisory THP warning
  goes to standard output and any other warning to standard error.
\<close>

fun routed :: "event \<Rightarrow> bool" where
  "routed (Print st fmt args) =
     (warning_text fmt \<longrightarrow> st = (if thp_advisory fmt then Stdout else Stderr))"
| "routed _ = True"

section \<open>An example environment\<close>

text \<open>
  An environment for the example runs: \<^verbatim>\<open>mmap\<close> succeeds and the baseline probe
  reads 40 kB, while \<^verbatim>\<open>madvise\<close>, the final VmPTE probe and \<^verbatim>\<open>munmap\<close> all fail.
\<close>

definition example_env :: "string \<Rightarrow> string \<Rightarrow> env" where
  "example_env size_arg mode_arg =
     \<lparr>argv = [''mmap_overhead_estimator'', size_arg, mode_arg],
      thp_status = THP_MADVISE,
      vmpte_before = 40,
      vmpte_after = - 1,
      mmap_result = Inr 140737488355328,
      madvise_result = - 1,
      munmap_result = - 1\<rparr>"


section \<open>Arithmetic of the ceiling division\<close>

text \<open>
  The idiom \<^verbatim>\<open>(A + B - 1) / B\<close> is the ceiling of \<open>A / B\<close> on natural numbers, and
  on words as long as \<open>A + B - 1\<close> does not wrap around.
\<close>

lemma ceil_div_nat: "0 < b \<Longrightarrow> \<lceil>real a / real b\<rceil> = int ((a + b - 1) div b)"
proof -
  assume b: "0 < b"
  have up: "real a / real b \<le> real ((a + b - 1) div b)"
  proof -
    have "a \<le> ((a + b - 1) div b) * b"
    proof -
      have "a + b - 1 = ((a + b - 1) div b) * b + (a + b - 1) mod b" by simp
      moreover have "(a + b - 1) mod b < b" using b by simp
      ultimately show ?thesis by linarith
    qed
    then have "real a \<le> real ((a + b - 1) div b) * real b"
      by (metis of_nat_le_iff of_nat_mult)
    then show ?thesis using b by (simp add: field_simps)
  qed
  have low: "real ((a + b - 1) div b) - 1 < real a / real b"
  proof -
    have "((a + b - 1) div b) * b \<le> a + b - 1" by simp
    then have "((a + b - 1) div b) * b < a + b" using b by linarith
    then have "real (((a + b - 1) div b) * b) < real (a + b)"
      by (simp only: of_nat_less_iff)
    then have "real ((a + b - 1) div b) * real b < real a + real b" by simp
    then show ?thesis using b by (simp add: field_simps)
  qed
  show ?thesis
    using up low by (simp add: ceiling_eq_iff del: of_nat_add of_nat_diff)
qed

lemma unat_ceil_div:
  fixes a b :: size_t
  assumes b: "b \<noteq> 0" and fit: "unat a + unat b - 1 < 2 ^ 64"
  shows "unat ((a + b - 1) div b) = (unat a + unat b - 1) div unat b"
proof -
  have b1: "unat (b - 1) = unat b - 1"
    using b by (simp add: unat_minus_one)
  have pos: "0 < unat b"
    using b by (simp add: unat_gt_0)
  have "unat a + unat (b - 1) < 2 ^ LENGTH(64)"
    using fit pos b1 by simp
  then have "unat (a + (b - 1)) = unat a + unat (b - 1)"
    by (simp only: unat_add_lem [THEN iffD1])
  then have "unat (a + b - 1) = unat a + unat b - 1"
    using b1 pos by (simp add: add_diff_eq)
  then show ?thesis
    by (simp add: unat_div)
qed


section \<open>C1: calculate_overhead\<close>

text \<open>
  C1 (as amended). For every \<^verbatim>\<open>total_size\<close> and every \<^verbatim>\<open>page_size > 0\<close> such that
  \<^verbatim>\<open>total_size + page_size - 1\<close> does not exceed \<^verbatim>\<open>SIZE_MAX\<close> and
  \<open>ceil(total_size / page_size) * 8\<close> does not exceed \<^verbatim>\<open>SIZE_MAX\<close>,
  \<^verbatim>\<open>calculate_overhead(total_size, page_size)\<close> returns
  \<open>ceil(total_size / page_size) * 8\<close>. The ceiling is the one of the real quotient.
\<close>

theorem calculate_overhead_ceiling:
  assumes "page_size \<noteq> 0"
    and "unat total_size + unat page_size - 1 < 2 ^ 64"
    and "\<lceil>real (unat total_size) / real (unat page_size)\<rceil> * 8 < 2 ^ 64"
  shows "int (unat (calculate_overhead total_size page_size))
         = \<lceil>real (unat total_size) / real (unat page_size)\<rceil> * 8"
proof -
  let ?n = "(unat total_size + unat page_size - 1) div unat page_size"
  have pos: "0 < unat page_size"
    using assms(1) by (simp add: unat_gt_0)
  have ceil: "\<lceil>real (unat total_size) / real (unat page_size)\<rceil> = int ?n"
    using pos by (rule ceil_div_nat)
  have pages: "unat ((total_size + page_size - 1) div page_size) = ?n"
    using assms(1,2) by (rule unat_ceil_div)
  from assms(3) have "int ?n * 8 < 2 ^ 64"
    by (simp only: ceil)
  then have "int (?n * 8) < int (2 ^ 64)"
    by simp
  then have "?n * 8 < 2 ^ 64"
    by (simp only: of_nat_less_iff)
  then have "unat ((total_size + page_size - 1) div page_size) * unat (8 :: size_t) < 2 ^ LENGTH(64)"
    using pages by simp
  then have "unat ((total_size + page_size - 1) div page_size * 8)
             = unat ((total_size + page_size - 1) div page_size) * unat (8 :: size_t)"
    by (simp only: unat_mult_lem [THEN iffD1])
  then have "unat (calculate_overhead total_size page_size) = ?n * 8"
    using assms(1) pages by (simp add: calculate_overhead_def PTE_SIZE_def Let_def)
  then show ?thesis
    using ceil by simp
qed


text \<open>
  The two examples of the claim, \<^verbatim>\<open>calculate_overhead(1048576, 4096) = 2048\<close> and
  \<^verbatim>\<open>calculate_overhead(1073741824, 2097152) = 4096\<close>, as instances of the theorem.
\<close>

theorem calculate_overhead_ceiling_witness:
  "calculate_overhead 1048576 4096 = 2048 \<and>
   calculate_overhead 1073741824 2097152 = 4096 \<and>
   int (unat (calculate_overhead 1048576 4096))
     = \<lceil>real (unat (1048576 :: size_t)) / real (unat (4096 :: size_t))\<rceil> * 8 \<and>
   int (unat (calculate_overhead 1073741824 2097152))
     = \<lceil>real (unat (1073741824 :: size_t)) / real (unat (2097152 :: size_t))\<rceil> * 8"
proof -
  have a: "calculate_overhead 1048576 4096 = 2048"
    by (simp add: calculate_overhead_def PTE_SIZE_def)
  have b: "calculate_overhead 1073741824 2097152 = 4096"
    by (simp add: calculate_overhead_def PTE_SIZE_def)
  have c: "int (unat (calculate_overhead 1048576 4096))
     = \<lceil>real (unat (1048576 :: size_t)) / real (unat (4096 :: size_t))\<rceil> * 8"
    by (rule calculate_overhead_ceiling) simp_all
  have d: "int (unat (calculate_overhead 1073741824 2097152))
     = \<lceil>real (unat (1073741824 :: size_t)) / real (unat (2097152 :: size_t))\<rceil> * 8"
    by (rule calculate_overhead_ceiling) simp_all
  show ?thesis using a b c d by blast
qed


text \<open>
  Without the bound the claim fails: for \<^verbatim>\<open>total_size = SIZE_MAX\<close> and
  \<^verbatim>\<open>page_size = 4096\<close> the sum \<^verbatim>\<open>total_size + page_size - 1\<close> wraps around to 4094,
  so the function returns 0, whereas \<open>ceil(total_size / page_size) * 8 = 2^55\<close> fits into
  a \<^verbatim>\<open>size_t\<close>.
\<close>

theorem calculate_overhead_wraps_counterexample:
  "calculate_overhead 18446744073709551615 4096 = 0 \<and>
   \<lceil>real (unat (18446744073709551615 :: size_t)) / real (unat (4096 :: size_t))\<rceil> * 8
     = 36028797018963968"
  by (simp add: calculate_overhead_def PTE_SIZE_def)

section \<open>Facts about strtoull and parse_size\<close>

lemmas parse_eval = parse_size_def strtoull_def after_sign_def isspace_def isdigit_def
  digit_value_def decimal_value_def suffix_multiplier_def ULLONG_MAX_def ERANGE_def Let_def

lemma isdigit_not_isspace: "isdigit c \<Longrightarrow> \<not> isspace c"
  by (auto simp: isdigit_def isspace_def)

lemma isdigit_not_sign: "isdigit c \<Longrightarrow> c \<noteq> CHR ''-'' \<and> c \<noteq> CHR ''+''"
  by (auto simp: isdigit_def)

lemma suffix_not_isdigit: "suffix_multiplier c = Some m \<Longrightarrow> \<not> isdigit c"
  by (auto simp: suffix_multiplier_def isdigit_def split: if_splits)

lemma strtoull_digits:
  assumes ne: "ds \<noteq> []" and dig: "list_all isdigit ds"
    and stop: "rest = [] \<or> \<not> isdigit (hd rest)"
  shows "strtoull e (ds @ rest) =
           (if decimal_value ds > unat ULLONG_MAX then (ULLONG_MAX, length ds, ERANGE)
            else (of_nat (decimal_value ds), length ds, e))"
proof -
  from ne obtain d ds' where ds: "ds = d # ds'"
    by (cases ds) auto
  have d: "isdigit d"
    using dig ds by simp
  have all: "\<And>x. x \<in> set ds \<Longrightarrow> isdigit x"
    using dig by (simp add: list_all_iff)
  have s1: "dropWhile isspace (ds @ rest) = ds @ rest"
    using d ds by (simp add: isdigit_not_isspace)
  have neg: "(case ds @ rest of [] \<Rightarrow> False | c # _ \<Rightarrow> c = CHR ''-'') = False"
    using d ds by (simp add: isdigit_not_sign)
  have s2: "after_sign (ds @ rest) = ds @ rest"
    using d ds by (simp add: after_sign_def isdigit_not_sign)
  have tw_rest: "takeWhile isdigit rest = []" and dw_rest: "dropWhile isdigit rest = rest"
    using stop by (cases rest; simp)+
  have tw: "takeWhile isdigit (ds @ rest) = ds"
    using all tw_rest by (simp add: takeWhile_append2)
  have dw: "dropWhile isdigit (ds @ rest) = rest"
    using all dw_rest by (simp add: dropWhile_append2)
  show ?thesis
    using ne by (simp add: strtoull_def s1 neg s2 tw dw Let_def)
qed

lemma suffix_multiplier_cases:
  "suffix_multiplier c = Some m \<Longrightarrow> unat m = 1024 \<or> unat m = 1048576 \<or> unat m = 1073741824"
  by (auto simp: suffix_multiplier_def split: if_splits)

lemma no_overflow_check:
  fixes v m :: size_t
  assumes "m \<noteq> 0"
  shows "(v > ULLONG_MAX div m) = (unat v * unat m \<ge> 2 ^ 64)"
proof -
  have pos: "0 < unat m"
    using assms by (simp add: unat_gt_0)
  have "(v > ULLONG_MAX div m) = (unat (ULLONG_MAX div m) < unat v)"
    by (simp add: word_less_nat_alt)
  also have "\<dots> = (18446744073709551615 div unat m < unat v)"
    by (simp add: unat_div ULLONG_MAX_def)
  also have "\<dots> = (\<not> unat v \<le> 18446744073709551615 div unat m)"
    by auto
  also have "\<dots> = (\<not> unat v * unat m \<le> 18446744073709551615)"
    using pos by (simp add: less_eq_div_iff_mult_less_eq)
  also have "\<dots> = (unat v * unat m \<ge> 2 ^ 64)"
    by auto
  finally show ?thesis .
qed

lemma parse_size_suffix:
  assumes ne: "ds \<noteq> []" and dig: "list_all isdigit ds"
    and mult: "suffix_multiplier c = Some m"
    and pos: "0 < decimal_value ds * unat m"
    and fit: "decimal_value ds * unat m < 2 ^ 64"
  shows "fst (parse_size e (ds @ [c])) = [] \<and>
         unat (snd (parse_size e (ds @ [c]))) = decimal_value ds * unat m"
proof -
  let ?n = "decimal_value ds"
  let ?v = "of_nat ?n :: size_t"
  have m: "unat m = 1024 \<or> unat m = 1048576 \<or> unat m = 1073741824"
    using mult by (rule suffix_multiplier_cases)
  then have m0: "m \<noteq> 0"
    by auto
  have "1024 \<le> unat m"
    using m by auto
  then have "?n * 1024 \<le> ?n * unat m"
    by simp
  then have "?n * 1024 < 2 ^ 64"
    using fit by (rule le_less_trans)
  then have n_small: "?n < 18446744073709551615"
    by simp
  then have st: "strtoull e (ds @ [c]) = (?v, length ds, e)"
    using strtoull_digits [OF ne dig, of "[c]" e] suffix_not_isdigit [OF mult]
    by (simp add: ULLONG_MAX_def)
  have uv: "unat ?v = ?n"
    using n_small by (simp add: unat_of_nat)
  have v0: "?v \<noteq> 0"
  proof
    assume "?v = 0"
    then have "unat ?v = 0" by simp
    with uv pos show False by simp
  qed
  have vmax: "?v \<noteq> ULLONG_MAX"
  proof
    assume "?v = ULLONG_MAX"
    then have "unat ?v = 18446744073709551615" by (simp add: ULLONG_MAX_def)
    with uv n_small show False by simp
  qed
  have chk: "\<not> ?v > ULLONG_MAX div m"
    using fit uv by (simp add: no_overflow_check [OF m0])
  have len: "length ds \<noteq> 0"
    using ne by simp
  have prod: "unat (?v * m) = ?n * unat m"
    using fit uv unat_mult_lem [of ?v m] by simp
  have "parse_size e (ds @ [c]) = ([], ?v * m)"
    using v0 vmax chk len mult by (simp add: parse_size_def st Let_def)
  then show ?thesis
    using prod by simp
qed

lemma parse_size_plain:
  assumes ne: "ds \<noteq> []" and dig: "list_all isdigit ds"
    and fit: "decimal_value ds < 2 ^ 64"
  shows "unat (snd (parse_size 0 ds)) = decimal_value ds \<and>
         (fst (parse_size 0 ds) = []) = (decimal_value ds \<noteq> 0)"
proof -
  let ?n = "decimal_value ds"
  let ?v = "of_nat ?n :: size_t"
  have st: "strtoull 0 ds = (?v, length ds, 0)"
    using strtoull_digits [OF ne dig, of "[]" 0] fit
    by (simp add: ULLONG_MAX_def)
  have uv: "unat ?v = ?n"
    using fit by (simp add: unat_of_nat)
  have v0: "(?v = 0) = (?n = 0)"
  proof
    assume "?v = 0"
    then have "unat ?v = 0" by simp
    with uv show "?n = 0" by simp
  next
    assume "?n = 0"
    then show "?v = 0" by simp
  qed
  have len: "length ds \<noteq> 0"
    using ne by simp
  have chk: "\<not> ?v > ULLONG_MAX"
    by (simp add: ULLONG_MAX_def word_less_nat_alt uv) (use fit in simp)
  show ?thesis
    using len uv v0 chk by (simp add: parse_size_def st Let_def ERANGE_def)
qed

lemma after_sign_suffix: "\<exists>p. s = p @ after_sign s"
  by (cases s) (auto simp: after_sign_def)

lemma drop_endptr:
  "drop (length s - length (dropWhile isdigit (after_sign (dropWhile isspace s)))) s
   = dropWhile isdigit (after_sign (dropWhile isspace s))"
proof -
  let ?s1 = "dropWhile isspace s"
  let ?s2 = "after_sign ?s1"
  let ?r = "dropWhile isdigit ?s2"
  obtain p where p: "?s1 = p @ ?s2"
    using after_sign_suffix by blast
  have "s = takeWhile isspace s @ ?s1"
    by simp
  also have "\<dots> = takeWhile isspace s @ p @ ?s2"
    using p by simp
  also have "\<dots> = (takeWhile isspace s @ p @ takeWhile isdigit ?s2) @ ?r"
    by simp
  finally have "s = (takeWhile isspace s @ p @ takeWhile isdigit ?s2) @ ?r" .
  then obtain q where q: "s = q @ ?r"
    by blast
  have "drop (length (q @ ?r) - length ?r) (q @ ?r) = ?r"
    by simp
  then show ?thesis
    using q by metis
qed

lemma rejected_eq: "rejected r = (\<exists>msg. r = ([Print Stderr msg []], 0))"
  by (cases r rule: rejected.cases) auto

lemma rejectedI: "rejected ([Print Stderr msg []], 0)"
  by (auto simp: rejected_eq)

lemma suffix_multiplier_None: "c \<notin> set ''KkMmGg'' \<Longrightarrow> suffix_multiplier c = None"
  by (auto simp: suffix_multiplier_def)

lemma parse_size_rejects_shape:
  assumes "\<not> accepted_shape s"
  shows "rejected (parse_size e s)"
proof -
  let ?s2 = "after_sign (dropWhile isspace s)"
  let ?r = "dropWhile isdigit ?s2"
  show ?thesis
  proof (cases "takeWhile isdigit ?s2 = []")
    case True
    then show ?thesis
      by (simp add: parse_size_def strtoull_def Let_def rejectedI)
  next
    case False
    with assms obtain c after where r: "?r = c # after"
      and bad: "c \<notin> set ''KkMmGg'' \<or> after \<noteq> []"
      by (auto simp: accepted_shape_def size_grammar_def Let_def split: list.splits)
    have tail: "rejected
        (case (case ?r of [] \<Rightarrow> Inr 1
               | suffix # after \<Rightarrow>
                   (case suffix_multiplier suffix of
                      None \<Rightarrow> Inl [Print Stderr m1 []]
                    | Some m \<Rightarrow> if after \<noteq> [] then Inl [Print Stderr m2 []] else Inr m)) of
           Inl diagnostic \<Rightarrow> (diagnostic, 0)
         | Inr multiplier \<Rightarrow> k multiplier)" for m1 m2 k
      using bad by (auto simp: r rejectedI suffix_multiplier_None split: option.splits)
    show ?thesis
      using False tail
      by (simp add: parse_size_def strtoull_def Let_def drop_endptr rejectedI)
  qed
qed

lemma final_size_nonzero:
  fixes v m :: size_t
  assumes m: "m \<noteq> 0" and chk: "\<not> v > ULLONG_MAX div m" and v: "v \<noteq> 0"
  shows "v * m \<noteq> 0"
proof -
  have fit: "unat v * unat m < 2 ^ LENGTH(64)"
    using chk by (simp add: no_overflow_check [OF m])
  then have "unat (v * m) = unat v * unat m"
    by (simp only: unat_mult_lem [THEN iffD1])
  moreover have "0 < unat v" "0 < unat m"
    using v m by (simp_all add: unat_gt_0)
  ultimately have "0 < unat (v * m)"
    by simp
  then show ?thesis
    by (simp add: unat_gt_0)
qed

lemma suffix_multiplier_nonzero: "suffix_multiplier c = Some m \<Longrightarrow> m \<noteq> 0"
  by (auto simp: suffix_multiplier_def split: if_splits)

lemma parse_size_outcome:
  "rejected (parse_size e s) \<or> (fst (parse_size e s) = [] \<and> snd (parse_size e s) \<noteq> 0)"
proof -
  obtain v ep er where st: "strtoull e s = (v, ep, er)"
    by (cases "strtoull e s") auto
  have fin: "rejected (if v > ULLONG_MAX div m then ([Print Stderr m1 []], 0)
                       else let final_size = v * m in
                            if final_size = 0 \<and> v = 0 then ([Print Stderr m2 []], 0)
                            else ([], final_size))
             \<or> (fst (if v > ULLONG_MAX div m then ([Print Stderr m1 []], 0)
                       else let final_size = v * m in
                            if final_size = 0 \<and> v = 0 then ([Print Stderr m2 []], 0)
                            else ([], final_size)) = []
                \<and> snd (if v > ULLONG_MAX div m then ([Print Stderr m1 []], 0)
                       else let final_size = v * m in
                            if final_size = 0 \<and> v = 0 then ([Print Stderr m2 []], 0)
                            else ([], final_size)) \<noteq> 0)"
    if "m \<noteq> 0" for m m1 m2
    using final_size_nonzero [OF that, of v] by (auto simp: Let_def rejectedI)
  show ?thesis
    unfolding parse_size_def st
    using fin [of 1] fin [OF suffix_multiplier_nonzero]
    by (auto simp: Let_def rejectedI split: list.splits option.splits)
qed

lemma rejected_iff: "rejected r \<Longrightarrow> fst r \<noteq> [] \<and> snd r = 0"
  by (auto simp: rejected_eq)

section \<open>C2: the value parse_size returns\<close>

text \<open>
  C2. For every size string consisting of at least one decimal digit \<open>ds\<close> followed by
  exactly one suffix letter \<open>c\<close> from \<open>{K,k,M,m,G,g}\<close>, \<^verbatim>\<open>parse_size\<close> returns the numeric
  value multiplied by 1024, 1024^2 or 1024^3 respectively (either case of the letter),
  without a diagnostic, provided the product is nonzero and representable in 64 bits.
  With no suffix it returns the numeric value itself (when that is representable), and
  it accepts the string exactly when the value is nonzero. \<^verbatim>\<open>errno\<close> is 0 at the call, as
  it is in \<^verbatim>\<open>main\<close>.
\<close>

theorem parse_size_value:
  assumes "ds \<noteq> []" and "list_all isdigit ds"
  shows "((c = CHR ''K'' \<or> c = CHR ''k'') \<longrightarrow>
            0 < decimal_value ds * 1024 \<longrightarrow> decimal_value ds * 1024 < 2 ^ 64 \<longrightarrow>
            fst (parse_size 0 (ds @ [c])) = [] \<and>
            unat (snd (parse_size 0 (ds @ [c]))) = decimal_value ds * 1024) \<and>
         ((c = CHR ''M'' \<or> c = CHR ''m'') \<longrightarrow>
            0 < decimal_value ds * 1024 ^ 2 \<longrightarrow> decimal_value ds * 1024 ^ 2 < 2 ^ 64 \<longrightarrow>
            fst (parse_size 0 (ds @ [c])) = [] \<and>
            unat (snd (parse_size 0 (ds @ [c]))) = decimal_value ds * 1024 ^ 2) \<and>
         ((c = CHR ''G'' \<or> c = CHR ''g'') \<longrightarrow>
            0 < decimal_value ds * 1024 ^ 3 \<longrightarrow> decimal_value ds * 1024 ^ 3 < 2 ^ 64 \<longrightarrow>
            fst (parse_size 0 (ds @ [c])) = [] \<and>
            unat (snd (parse_size 0 (ds @ [c]))) = decimal_value ds * 1024 ^ 3) \<and>
         (decimal_value ds < 2 ^ 64 \<longrightarrow>
            unat (snd (parse_size 0 ds)) = decimal_value ds \<and>
            (fst (parse_size 0 ds) = []) = (decimal_value ds \<noteq> 0))"
proof -
  have k: "suffix_multiplier c = Some 1024" if "c = CHR ''K'' \<or> c = CHR ''k''"
    using that by (auto simp: suffix_multiplier_def)
  have m: "suffix_multiplier c = Some 1048576" if "c = CHR ''M'' \<or> c = CHR ''m''"
    using that by (auto simp: suffix_multiplier_def)
  have g: "suffix_multiplier c = Some 1073741824" if "c = CHR ''G'' \<or> c = CHR ''g''"
    using that by (auto simp: suffix_multiplier_def)
  have kilo: "fst (parse_size 0 (ds @ [c])) = [] \<and>
        unat (snd (parse_size 0 (ds @ [c]))) = decimal_value ds * 1024"
    if "c = CHR ''K'' \<or> c = CHR ''k''" "0 < decimal_value ds * 1024"
      "decimal_value ds * 1024 < 2 ^ 64"
    using parse_size_suffix [OF assms k [OF that(1)], of 0] that(2,3) by simp
  have mega: "fst (parse_size 0 (ds @ [c])) = [] \<and>
        unat (snd (parse_size 0 (ds @ [c]))) = decimal_value ds * 1024 ^ 2"
    if "c = CHR ''M'' \<or> c = CHR ''m''" "0 < decimal_value ds * 1024 ^ 2"
      "decimal_value ds * 1024 ^ 2 < 2 ^ 64"
    using parse_size_suffix [OF assms m [OF that(1)], of 0] that(2,3) by simp
  have giga: "fst (parse_size 0 (ds @ [c])) = [] \<and>
        unat (snd (parse_size 0 (ds @ [c]))) = decimal_value ds * 1024 ^ 3"
    if "c = CHR ''G'' \<or> c = CHR ''g''" "0 < decimal_value ds * 1024 ^ 3"
      "decimal_value ds * 1024 ^ 3 < 2 ^ 64"
    using parse_size_suffix [OF assms g [OF that(1)], of 0] that(2,3) by simp
  have plain: "unat (snd (parse_size 0 ds)) = decimal_value ds \<and>
        (fst (parse_size 0 ds) = []) = (decimal_value ds \<noteq> 0)"
    if "decimal_value ds < 2 ^ 64"
    using parse_size_plain [OF assms that] .
  show ?thesis
    using kilo mega giga plain by blast
qed


text \<open>
  The examples of the claim: "1G" yields 1073741824, "256M" yields 268435456, "512K"
  yields 524288; and "4096" without a suffix yields 4096.
\<close>

theorem parse_size_value_witness:
  "fst (parse_size 0 ''1G'') = [] \<and> unat (snd (parse_size 0 ''1G'')) = 1073741824 \<and>
   fst (parse_size 0 ''256M'') = [] \<and> unat (snd (parse_size 0 ''256M'')) = 268435456 \<and>
   fst (parse_size 0 ''512K'') = [] \<and> unat (snd (parse_size 0 ''512K'')) = 524288 \<and>
   fst (parse_size 0 ''4096'') = [] \<and> unat (snd (parse_size 0 ''4096'')) = 4096"
proof -
  have d: "list_all isdigit ''1''" "list_all isdigit ''256''" "list_all isdigit ''512''"
    "list_all isdigit ''4096''"
    by (simp_all add: isdigit_def)
  have v: "decimal_value ''1'' = 1" "decimal_value ''256'' = 256"
    "decimal_value ''512'' = 512" "decimal_value ''4096'' = 4096"
    by (simp_all add: decimal_value_def digit_value_def)
  have g: "fst (parse_size 0 ''1G'') = [] \<and> unat (snd (parse_size 0 ''1G'')) = 1073741824"
    using parse_size_value [OF _ d(1), of "CHR ''G''"] v by simp
  have m: "fst (parse_size 0 ''256M'') = [] \<and> unat (snd (parse_size 0 ''256M'')) = 268435456"
    using parse_size_value [OF _ d(2), of "CHR ''M''"] v by simp
  have k: "fst (parse_size 0 ''512K'') = [] \<and> unat (snd (parse_size 0 ''512K'')) = 524288"
    using parse_size_value [OF _ d(3), of "CHR ''K''"] v by simp
  have p: "fst (parse_size 0 ''4096'') = [] \<and> unat (snd (parse_size 0 ''4096'')) = 4096"
    using parse_size_value [OF _ d(4), of "CHR ''K''"] v by simp
  show ?thesis
    using g m k p by blast
qed

section \<open>Facts about main\<close>

text \<open>
  Every run of \<^verbatim>\<open>main\<close> that returns took one of seven paths: the six early
  \<^verbatim>\<open>return 1\<close> statements and the full run to \<^verbatim>\<open>return 0\<close>.
\<close>

lemma parse_size_zero_rejected:
  "snd (parse_size e s) = 0 \<Longrightarrow> rejected (parse_size e s)"
  using parse_size_outcome [of e s] by auto

lemma parse_size_nonzero_accepted:
  "parse_size e s = (t1, map_size) \<Longrightarrow> map_size \<noteq> 0 \<Longrightarrow> t1 = []"
  using parse_size_outcome [of e s] by (auto simp: rejected_eq)

lemma main_cases [consumes 1, case_names usage parse mode align baseline mmap full]:
  assumes run: "main env = Some (tr, rc)"
  obtains
    "length (argv env) \<noteq> 3" "tr = usage" "rc = 1"
  | "length (argv env) = 3" "rejected (parse_size 0 (argv env ! 1))"
    "tr = fst (parse_size 0 (argv env ! 1))" "rc = 1"
  | map_size t2 where "length (argv env) = 3"
    "parse_size 0 (argv env ! 1) = ([], map_size)" "map_size \<noteq> 0"
    "select_mode (argv env ! 2) = (t2, None)" "tr = t2" "rc = 1"
  | map_size t2 mode flags hps step where "length (argv env) = 3"
    "parse_size 0 (argv env ! 1) = ([], map_size)" "map_size \<noteq> 0"
    "select_mode (argv env ! 2) = (t2, Some (mode, flags, hps, step))"
    "mode = MODE_2M \<or> mode = MODE_1G" "map_size mod hps \<noteq> 0"
    "tr = t2 @ [Print Stderr
                  ''Error: Mapping size %zu bytes must be a multiple of the huge page size (%zu bytes) for mode %s.''
                  [map_size, hps]]"
    "rc = 1"
  | map_size t2 mode flags hps step where "length (argv env) = 3"
    "parse_size 0 (argv env ! 1) = ([], map_size)" "map_size \<noteq> 0"
    "select_mode (argv env ! 2) = (t2, Some (mode, flags, hps, step))"
    "\<not> ((mode = MODE_2M \<or> mode = MODE_1G) \<and> map_size mod hps \<noteq> 0)"
    "vmpte_before env < 0"
    "tr = t2 @ [CheckThpStatus] @ thp_warnings mode (thp_status env) @ [GetVmPTE]
          @ [Print Stderr
               ''Error: Could not get initial VmPTE from /proc/self/status. Aborting.'' []]"
    "rc = 1"
  | map_size t2 mode flags hps step err where "length (argv env) = 3"
    "parse_size 0 (argv env ! 1) = ([], map_size)" "map_size \<noteq> 0"
    "select_mode (argv env ! 2) = (t2, Some (mode, flags, hps, step))"
    "\<not> ((mode = MODE_2M \<or> mode = MODE_1G) \<and> map_size mod hps \<noteq> 0)"
    "\<not> vmpte_before env < 0" "mmap_result env = Inl err"
    "tr = t2 @ [CheckThpStatus] @ thp_warnings mode (thp_status env) @ [GetVmPTE]
          @ [Print Stdout ''Initial VmPTE: %ld kB'' [],
             Print Stdout ''Mapping size: %zu bytes (%.2f MB / %.2f GB)'' [map_size],
             Print Stdout ''--- Mapping Memory ---'' [],
             Mmap map_size flags (Inl err)]
          @ mmap_failure_report mode err map_size hps"
    "rc = 1"
  | map_size t2 mode flags hps step addr stores touched_count where
    "length (argv env) = 3"
    "parse_size 0 (argv env ! 1) = ([], map_size)" "map_size \<noteq> 0"
    "select_mode (argv env ! 2) = (t2, Some (mode, flags, hps, step))"
    "\<not> ((mode = MODE_2M \<or> mode = MODE_1G) \<and> map_size mod hps \<noteq> 0)"
    "\<not> vmpte_before env < 0" "mmap_result env = Inr addr"
    "touch_loop map_size step 0 [] 0 = Some (stores, touched_count)"
    "tr = t2 @ [CheckThpStatus] @ thp_warnings mode (thp_status env) @ [GetVmPTE]
          @ [Print Stdout ''Initial VmPTE: %ld kB'' [],
             Print Stdout ''Mapping size: %zu bytes (%.2f MB / %.2f GB)'' [map_size],
             Print Stdout ''--- Mapping Memory ---'' [],
             Mmap map_size flags (Inr addr)]
          @ madvise_hints mode (thp_status env) addr map_size (madvise_result env)
          @ [Print Stdout ''--- Touching Memory (1 byte per %zu KB page/stride) ---''
               [step div 1024]]
          @ map (\<lambda>(i, v). Store i v) stores
          @ [Print Stdout ''Touched %zu strides.'' [touched_count]]
          @ vmpte_report (vmpte_after env)
          @ theoretical_overheads map_size
          @ cleanup addr map_size (munmap_result env)"
    "rc = 0"
proof (cases "length (argv env) = 3")
  case False
  with run have "tr = usage" "rc = 1"
    by (simp_all add: main_def)
  with False show ?thesis
    by (rule that(1))
next
  case len: True
  obtain t1 map_size where ps: "parse_size 0 (argv env ! 1) = (t1, map_size)"
    by (cases "parse_size 0 (argv env ! 1)") auto
  show ?thesis
  proof (cases "map_size = 0")
    case True
    with run len ps have "tr = fst (parse_size 0 (argv env ! 1))" "rc = 1"
      by (simp_all add: main_def)
    moreover have "rejected (parse_size 0 (argv env ! 1))"
      using True ps parse_size_zero_rejected [of 0 "argv env ! 1"] by simp
    ultimately show ?thesis
      using len by (intro that(2))
  next
    case nz: False
    have t1: "t1 = []"
      using ps nz by (rule parse_size_nonzero_accepted)
    obtain t2 sel where sm: "select_mode (argv env ! 2) = (t2, sel)"
      by (cases "select_mode (argv env ! 2)") auto
    show ?thesis
    proof (cases sel)
      case None
      with run len ps nz sm t1 have "tr = t2" "rc = 1"
        by (simp_all add: main_def)
      with len ps nz sm None t1 show ?thesis
        by (intro that(3)) auto
    next
      case (Some quad)
      obtain mode flags hps step where quad: "quad = (mode, flags, hps, step)"
        by (cases quad) auto
      note sel = sm [unfolded Some quad]
      let ?pre = "t2 @ [CheckThpStatus] @ thp_warnings mode (thp_status env) @ [GetVmPTE]"
      show ?thesis
      proof (cases "(mode = MODE_2M \<or> mode = MODE_1G) \<and> map_size mod hps \<noteq> 0")
        case True
        have "main env = Some (t2 @ [Print Stderr
                  ''Error: Mapping size %zu bytes must be a multiple of the huge page size (%zu bytes) for mode %s.''
                  [map_size, hps]], 1)"
          unfolding main_def using len ps nz sel t1 True by simp
        with run show ?thesis
          using len ps nz sel t1 True
          by (intro that(4) [of map_size t2 mode flags hps step]) simp_all
      next
        case aligned: False
        show ?thesis
        proof (cases "vmpte_before env < 0")
          case True
          have "main env = Some (?pre @ [Print Stderr
               ''Error: Could not get initial VmPTE from /proc/self/status. Aborting.'' []], 1)"
            unfolding main_def using len ps nz sel t1 aligned True by (simp add: Let_def)
          with run show ?thesis
            using len ps nz sel t1 aligned True
            by (intro that(5) [of map_size t2 mode flags hps step]) simp_all
        next
          case base: False
          let ?t4 = "?pre @ [Print Stdout ''Initial VmPTE: %ld kB'' [],
             Print Stdout ''Mapping size: %zu bytes (%.2f MB / %.2f GB)'' [map_size],
             Print Stdout ''--- Mapping Memory ---'' [],
             Mmap map_size flags (mmap_result env)]"
          show ?thesis
          proof (cases "mmap_result env")
            case (Inl err)
            have "main env = Some (?t4 @ mmap_failure_report mode err map_size hps, 1)"
              unfolding main_def using len ps nz sel t1 aligned base Inl
              by (simp add: Let_def)
            with run show ?thesis
              using len ps nz sel t1 aligned base Inl
              by (intro that(6) [of map_size t2 mode flags hps step err]) simp_all
          next
            case (Inr addr)
            show ?thesis
            proof (cases "touch_loop map_size step 0 [] 0")
              case None
              have "main env = None"
                unfolding main_def using len ps nz sel t1 aligned base Inr None
                by (simp add: Let_def)
              with run show ?thesis
                by simp
            next
              case (Some res)
              obtain stores touched_count where res: "res = (stores, touched_count)"
                by (cases res) auto
              have "main env = Some (?t4
                  @ madvise_hints mode (thp_status env) addr map_size (madvise_result env)
                  @ [Print Stdout ''--- Touching Memory (1 byte per %zu KB page/stride) ---''
                       [step div 1024]]
                  @ map (\<lambda>(i, v). Store i v) stores
                  @ [Print Stdout ''Touched %zu strides.'' [touched_count]]
                  @ vmpte_report (vmpte_after env)
                  @ theoretical_overheads map_size
                  @ cleanup addr map_size (munmap_result env), 0)"
                unfolding main_def using len ps nz sel t1 aligned base Inr Some res
                by (simp add: Let_def)
              with run show ?thesis
                using len ps nz sel t1 aligned base Inr Some res
                by (intro that(7) [of map_size t2 mode flags hps step addr stores touched_count])
                   simp_all
            qed
          qed
        qed
      qed
    qed
  qed
qed

lemma no_mapping_calls_usage [simp]:
  "filter is_mmap usage = []" "filter is_munmap usage = []"
  by (simp_all add: usage_def)

lemma no_mapping_calls_rejected:
  "rejected r \<Longrightarrow> filter is_mmap (fst r) = [] \<and> filter is_munmap (fst r) = []"
  by (auto simp: rejected_eq)

lemma no_mapping_calls_select_mode:
  "select_mode a = (t2, sel) \<Longrightarrow> filter is_mmap t2 = [] \<and> filter is_munmap t2 = []"
  by (auto simp: select_mode_def split: if_splits)

lemma no_mapping_calls_thp_warnings [simp]:
  "filter is_mmap (thp_warnings mode status) = []"
  "filter is_munmap (thp_warnings mode status) = []"
  by (simp_all add: thp_warnings_def)

lemma no_mapping_calls_mmap_failure_report [simp]:
  "filter is_mmap (mmap_failure_report mode err map_size hps) = []"
  "filter is_munmap (mmap_failure_report mode err map_size hps) = []"
  by (simp_all add: mmap_failure_report_def)

lemma no_mapping_calls_madvise_hints [simp]:
  "filter is_mmap (madvise_hints mode status addr map_size ret) = []"
  "filter is_munmap (madvise_hints mode status addr map_size ret) = []"
  by (simp_all add: madvise_hints_def)

lemma no_mapping_calls_stores [simp]:
  "filter is_mmap (map (\<lambda>(i, v). Store i v) stores) = []"
  "filter is_munmap (map (\<lambda>(i, v). Store i v) stores) = []"
  by (induction stores) auto

lemma no_mapping_calls_vmpte_report [simp]:
  "filter is_mmap (vmpte_report after) = []"
  "filter is_munmap (vmpte_report after) = []"
  by (simp_all add: vmpte_report_def)

lemma no_mapping_calls_theoretical_overheads [simp]:
  "filter is_mmap (theoretical_overheads map_size) = []"
  "filter is_munmap (theoretical_overheads map_size) = []"
  by (simp_all add: theoretical_overheads_def)

lemma mapping_calls_cleanup [simp]:
  "filter is_mmap (cleanup addr map_size ret) = []"
  "filter is_munmap (cleanup addr map_size ret) = [Munmap addr map_size]"
  by (simp_all add: cleanup_def)

lemma main_mmap_calls:
  assumes "main env = Some (tr, rc)"
  shows "(filter is_mmap tr = [] \<and> filter is_munmap tr = [] \<and> rc = 1) \<or>
         (\<exists>map_size flags err. parse_size 0 (argv env ! 1) = ([], map_size) \<and> map_size \<noteq> 0 \<and>
            filter is_mmap tr = [Mmap map_size flags (Inl err)] \<and>
            filter is_munmap tr = [] \<and> rc = 1) \<or>
         (\<exists>map_size flags addr. parse_size 0 (argv env ! 1) = ([], map_size) \<and> map_size \<noteq> 0 \<and>
            filter is_mmap tr = [Mmap map_size flags (Inr addr)] \<and>
            filter is_munmap tr = [Munmap addr map_size] \<and> rc = 0)"
  using assms
proof (cases rule: main_cases)
  case usage
  then show ?thesis by simp
next
  case parse
  then show ?thesis by (simp add: no_mapping_calls_rejected)
next
  case (mode map_size t2)
  then show ?thesis using no_mapping_calls_select_mode [OF mode(4)] by simp
next
  case (align map_size t2 mode flags hps step)
  then show ?thesis using no_mapping_calls_select_mode [OF align(4)] by simp
next
  case (baseline map_size t2 mode flags hps step)
  then show ?thesis using no_mapping_calls_select_mode [OF baseline(4)] by simp
next
  case (mmap map_size t2 mode flags hps step err)
  then show ?thesis using no_mapping_calls_select_mode [OF mmap(4)] by simp
next
  case (full map_size t2 mode flags hps step addr stores touched_count)
  then show ?thesis using no_mapping_calls_select_mode [OF full(4)] by simp
qed

text \<open>The value of \<^verbatim>\<open>main\<close> on each of its seven paths.\<close>

lemma main_usage: "length (argv env) \<noteq> 3 \<Longrightarrow> main env = Some (usage, 1)"
  by (simp add: main_def)

lemma main_parse_failure:
  assumes "length (argv env) = 3" and "snd (parse_size 0 (argv env ! 1)) = 0"
  shows "main env = Some (fst (parse_size 0 (argv env ! 1)), 1)"
proof -
  obtain t1 map_size where ps: "parse_size 0 (argv env ! 1) = (t1, map_size)"
    by (cases "parse_size 0 (argv env ! 1)") auto
  with assms(2) have "map_size = 0"
    by simp
  with assms(1) ps show ?thesis
    unfolding main_def by simp
qed

lemma main_invalid_mode:
  assumes "length (argv env) = 3" and "parse_size 0 (argv env ! 1) = ([], map_size)"
    and "map_size \<noteq> 0" and "select_mode (argv env ! 2) = (t2, None)"
  shows "main env = Some (t2, 1)"
  unfolding main_def using assms by simp

lemma main_misaligned:
  assumes "length (argv env) = 3" and "parse_size 0 (argv env ! 1) = ([], map_size)"
    and "map_size \<noteq> 0"
    and "select_mode (argv env ! 2) = (t2, Some (mode, flags, hps, step))"
    and "mode = MODE_2M \<or> mode = MODE_1G" and "map_size mod hps \<noteq> 0"
  shows "main env = Some (t2 @ [Print Stderr
                  ''Error: Mapping size %zu bytes must be a multiple of the huge page size (%zu bytes) for mode %s.''
                  [map_size, hps]], 1)"
  unfolding main_def using assms by simp

lemma main_no_baseline:
  assumes "length (argv env) = 3" and "parse_size 0 (argv env ! 1) = ([], map_size)"
    and "map_size \<noteq> 0"
    and "select_mode (argv env ! 2) = (t2, Some (mode, flags, hps, step))"
    and "\<not> ((mode = MODE_2M \<or> mode = MODE_1G) \<and> map_size mod hps \<noteq> 0)"
    and "vmpte_before env < 0"
  shows "main env = Some (t2 @ [CheckThpStatus] @ thp_warnings mode (thp_status env)
          @ [GetVmPTE]
          @ [Print Stderr
               ''Error: Could not get initial VmPTE from /proc/self/status. Aborting.'' []], 1)"
  unfolding main_def using assms by (simp add: Let_def)

lemma main_mmap_failed:
  assumes "length (argv env) = 3" and "parse_size 0 (argv env ! 1) = ([], map_size)"
    and "map_size \<noteq> 0"
    and "select_mode (argv env ! 2) = (t2, Some (mode, flags, hps, step))"
    and "\<not> ((mode = MODE_2M \<or> mode = MODE_1G) \<and> map_size mod hps \<noteq> 0)"
    and "\<not> vmpte_before env < 0" and "mmap_result env = Inl err"
  shows "main env = Some (t2 @ [CheckThpStatus] @ thp_warnings mode (thp_status env)
          @ [GetVmPTE]
          @ [Print Stdout ''Initial VmPTE: %ld kB'' [],
             Print Stdout ''Mapping size: %zu bytes (%.2f MB / %.2f GB)'' [map_size],
             Print Stdout ''--- Mapping Memory ---'' [],
             Mmap map_size flags (Inl err)]
          @ mmap_failure_report mode err map_size hps, 1)"
  unfolding main_def using assms by (simp add: Let_def)

lemma main_full_run:
  assumes "length (argv env) = 3" and "parse_size 0 (argv env ! 1) = ([], map_size)"
    and "map_size \<noteq> 0"
    and "select_mode (argv env ! 2) = (t2, Some (mode, flags, hps, step))"
    and "\<not> ((mode = MODE_2M \<or> mode = MODE_1G) \<and> map_size mod hps \<noteq> 0)"
    and "\<not> vmpte_before env < 0" and "mmap_result env = Inr addr"
    and "touch_loop map_size step 0 [] 0 = Some (stores, touched_count)"
  shows "main env = Some (t2 @ [CheckThpStatus] @ thp_warnings mode (thp_status env)
          @ [GetVmPTE]
          @ [Print Stdout ''Initial VmPTE: %ld kB'' [],
             Print Stdout ''Mapping size: %zu bytes (%.2f MB / %.2f GB)'' [map_size],
             Print Stdout ''--- Mapping Memory ---'' [],
             Mmap map_size flags (Inr addr)]
          @ madvise_hints mode (thp_status env) addr map_size (madvise_result env)
          @ [Print Stdout ''--- Touching Memory (1 byte per %zu KB page/stride) ---''
               [step div 1024]]
          @ map (\<lambda>(i, v). Store i v) stores
          @ [Print Stdout ''Touched %zu strides.'' [touched_count]]
          @ vmpte_report (vmpte_after env)
          @ theoretical_overheads map_size
          @ cleanup addr map_size (munmap_result env), 0)"
  unfolding main_def using assms by (simp add: Let_def)

text \<open>The calls into the operating system that each part of a run makes.\<close>

lemma calls_append [simp]: "calls (xs @ ys) = calls xs @ calls ys"
  by (simp add: calls_def)

lemma calls_Cons [simp]: "calls (x # xs) = (if is_call x then x # calls xs else calls xs)"
  by (simp add: calls_def)

lemma calls_Nil [simp]: "calls [] = []"
  by (simp add: calls_def)

lemma calls_usage [simp]: "calls usage = []"
  by (simp add: usage_def)

lemma calls_rejected: "rejected r \<Longrightarrow> calls (fst r) = []"
  by (auto simp: rejected_eq)

lemma calls_select_mode: "select_mode a = (t2, sel) \<Longrightarrow> calls t2 = []"
  by (auto simp: select_mode_def split: if_splits)

lemma calls_thp_warnings [simp]: "calls (thp_warnings mode status) = []"
  by (simp add: thp_warnings_def)

lemma calls_mmap_failure_report [simp]: "calls (mmap_failure_report mode err map_size hps) = []"
  by (simp add: mmap_failure_report_def)

lemma calls_madvise_hints [simp]:
  "calls (madvise_hints mode status addr map_size ret) =
     (if mode = MODE_4K then [Madvise addr map_size MADV_NOHUGEPAGE]
      else if mode = MODE_THP \<and> status = THP_MADVISE then [Madvise addr map_size MADV_HUGEPAGE]
      else [])"
  by (simp add: madvise_hints_def)

lemma calls_stores [simp]: "calls (map (\<lambda>(i, v). Store i v) stores) = []"
  by (induction stores) auto

lemma calls_vmpte_report [simp]: "calls (vmpte_report after) = [GetVmPTE]"
  by (simp add: vmpte_report_def)

lemma calls_theoretical_overheads [simp]: "calls (theoretical_overheads map_size) = []"
  by (simp add: theoretical_overheads_def)

lemma calls_cleanup [simp]: "calls (cleanup addr map_size ret) = [Getchar, Munmap addr map_size]"
  by (simp add: cleanup_def)

lemma main_calls:
  assumes "main env = Some (tr, rc)"
  shows "(rc = 1 \<and> calls tr = []) \<or>
         (rc = 1 \<and> calls tr = [CheckThpStatus, GetVmPTE]) \<or>
         (rc = 1 \<and> (\<exists>map_size flags err.
            calls tr = [CheckThpStatus, GetVmPTE, Mmap map_size flags (Inl err)])) \<or>
         (rc = 0 \<and> (\<exists>map_size flags addr mode.
            calls tr = [CheckThpStatus, GetVmPTE, Mmap map_size flags (Inr addr)]
              @ calls (madvise_hints mode (thp_status env) addr map_size (madvise_result env))
              @ [GetVmPTE, Getchar, Munmap addr map_size]))"
  using assms
proof (cases rule: main_cases)
  case usage
  then show ?thesis by simp
next
  case parse
  then show ?thesis by (simp add: calls_rejected)
next
  case (mode map_size t2)
  then show ?thesis using calls_select_mode [OF mode(4)] by simp
next
  case (align map_size t2 mode flags hps step)
  then show ?thesis using calls_select_mode [OF align(4)] by simp
next
  case (baseline map_size t2 mode flags hps step)
  then show ?thesis using calls_select_mode [OF baseline(4)] by simp
next
  case (mmap map_size t2 mode flags hps step err)
  then show ?thesis using calls_select_mode [OF mmap(4)] by simp
next
  case (full map_size t2 mode flags hps step addr stores touched_count)
  have "calls tr = [CheckThpStatus, GetVmPTE, Mmap map_size flags (Inr addr)]
              @ calls (madvise_hints mode (thp_status env) addr map_size (madvise_result env))
              @ [GetVmPTE, Getchar, Munmap addr map_size]"
    unfolding full(9) using calls_select_mode [OF full(4)]
    by (simp del: calls_madvise_hints)
  with full(10) show ?thesis by blast
qed

section \<open>Facts about the touch loop\<close>

lemma remaining_strides_zero:
  fixes N I S :: nat
  assumes "0 < S" and "(N - I + S - 1) div S = 0"
  shows "N \<le> I"
proof -
  from assms have "N - I + S - 1 < S"
    by (simp add: div_eq_0_iff)
  then show ?thesis
    using assms(1) by linarith
qed

lemma remaining_strides_Suc:
  fixes N I S :: nat
  assumes S: "0 < S" and k: "(N - I + S - 1) div S = Suc k"
  shows "I < N \<and> (N - (I + S) + S - 1) div S = k"
proof -
  have lt: "I < N"
  proof (rule ccontr)
    assume "\<not> I < N"
    then have "N - I + S - 1 < S" using S by linarith
    then have "(N - I + S - 1) div S = 0" by simp
    with k show False by simp
  qed
  have "N - I + S - 1 = (N - I - 1) + S"
    using lt by linarith
  then have "(N - I + S - 1) div S = ((N - I - 1) + S) div S"
    by (rule arg_cong)
  also have "\<dots> = (N - I - 1) div S + 1"
    using S by (simp only: div_add_self2)
  finally have q: "(N - I - 1) div S = k"
    using k by simp
  have "(N - (I + S) + S - 1) div S = k"
  proof (cases "S \<le> N - I")
    case True
    then have "N - (I + S) + S - 1 = N - I - 1"
      by linarith
    with q show ?thesis by (simp only:)
  next
    case False
    then have "N - I - 1 < S" by linarith
    then have "k = 0" using q by simp
    moreover have "N - (I + S) + S - 1 < S" using False S by linarith
    ultimately show ?thesis by simp
  qed
  with lt show ?thesis by (rule conjI)
qed

lemma stride_stores_Suc:
  "stride_stores i s (Suc k) = (i, ucast (i mod 256)) # stride_stores (i + s) s k"
proof -
  define g :: "nat \<Rightarrow> size_t \<times> 8 word"
    where "g j = (i + of_nat j * s, ucast ((i + of_nat j * s) mod 256))" for j
  define h :: "nat \<Rightarrow> size_t \<times> 8 word"
    where "h j = (i + s + of_nat j * s, ucast ((i + s + of_nat j * s) mod 256))" for j
  have g0: "g 0 = (i, ucast (i mod 256))"
    by (simp add: g_def)
  have "i + of_nat (Suc j) * s = i + s + of_nat j * s" for j
    by (simp add: algebra_simps)
  then have gS: "g (Suc j) = h j" for j
    unfolding g_def h_def by (simp only:)
  have "stride_stores i s (Suc k) = map g [0..<Suc k]"
    unfolding stride_stores_def g_def ..
  also have "\<dots> = g 0 # map (\<lambda>j. g (Suc j)) [0..<k]"
    by (rule map_upt_Suc)
  also have "\<dots> = (i, ucast (i mod 256)) # map h [0..<k]"
    by (simp only: g0 gS)
  also have "map h [0..<k] = stride_stores (i + s) s k"
    unfolding stride_stores_def h_def ..
  finally show ?thesis .
qed

lemma touch_loop_run:
  fixes n s i c :: size_t
  assumes s: "s \<noteq> 0"
  shows "(unat n - unat i + unat s - 1) div unat s = k \<Longrightarrow>
         unat i + k * unat s < 2 ^ 64 \<Longrightarrow>
         touch_loop n s i st c = Some (st @ stride_stores i s k, c + of_nat k)"
proof (induction k arbitrary: i st c)
  case 0
  have S: "0 < unat s"
    using s by (simp add: unat_gt_0)
  have "unat n \<le> unat i"
    using S 0(1) by (rule remaining_strides_zero)
  then have "\<not> i < n"
    by (simp add: word_less_nat_alt)
  then show ?case
    by (subst touch_loop.simps) (simp add: stride_stores_def)
next
  case (Suc k)
  have S: "0 < unat s"
    using s by (simp add: unat_gt_0)
  from remaining_strides_Suc [OF S Suc.prems(1)]
  have lt: "unat i < unat n" and rest: "(unat n - (unat i + unat s) + unat s - 1) div unat s = k"
    by simp_all
  have "unat i + unat s < 2 ^ LENGTH(64)"
    using Suc.prems(2) by simp
  then have step: "unat (i + s) = unat i + unat s"
    by (simp only: unat_add_lem [THEN iffD1])
  have rest': "(unat n - unat (i + s) + unat s - 1) div unat s = k"
    using rest step by simp
  have fit': "unat (i + s) + k * unat s < 2 ^ 64"
    using Suc.prems(2) step by simp
  have "touch_loop n s i st c
        = touch_loop n s (i + s) (st @ [(i, ucast (i mod 256))]) (c + 1)"
    using lt by (subst touch_loop.simps) (simp add: word_less_nat_alt)
  also have "\<dots> = Some ((st @ [(i, ucast (i mod 256))]) @ stride_stores (i + s) s k,
                         c + 1 + of_nat k)"
    using rest' fit' by (rule Suc.IH)
  also have "\<dots> = Some (st @ stride_stores i s (Suc k), c + of_nat (Suc k))"
    by (simp add: stride_stores_Suc)
  finally show ?case .
qed

lemma touch_loop_from_start:
  fixes n s :: size_t
  assumes s: "s \<noteq> 0"
    and fit: "((unat n + unat s - 1) div unat s) * unat s < 2 ^ 64"
  shows "touch_loop n s 0 [] 0
         = Some (map (\<lambda>j. (of_nat (j * unat s), ucast (of_nat (j * unat s) mod (256 :: size_t))))
                   [0..<(unat n + unat s - 1) div unat s],
                 of_nat ((unat n + unat s - 1) div unat s))"
proof -
  let ?k = "(unat n + unat s - 1) div unat s"
  have "touch_loop n s 0 [] 0 = Some ([] @ stride_stores 0 s ?k, 0 + of_nat ?k)"
    using s by (rule touch_loop_run) (use fit in simp_all)
  moreover have "of_nat j * s = (of_nat (j * unat s) :: size_t)" for j
    by (simp only: of_nat_mult of_nat_unat ucast_id)
  ultimately show ?thesis
    by (simp only: stride_stores_def append_Nil add_0)
qed

lemma select_mode_steps:
  "map (\<lambda>a. map_option (\<lambda>(mode, flags, hps, step). (mode, unat step)) (snd (select_mode a)))
     [''4k'', ''thp'', ''2m'', ''1g'']
   = [Some (MODE_4K, 4096), Some (MODE_THP, 4096), Some (MODE_2M, 2097152),
      Some (MODE_1G, 1073741824)]"
  by (simp add: select_mode_def PAGE_SIZE_4K_def PAGE_SIZE_2M_def PAGE_SIZE_1G_def)


section \<open>Facts about the exit status\<close>

lemma fatal_code:
  assumes "length (argv env) = 3" and "parse_size 0 (argv env ! 1) = (t1, ms)"
    and "select_mode (argv env ! 2) = (t2, sel)"
  shows "fatal env =
           (ms = 0 \<or> sel = None
            \<or> (\<exists>mode fl hps step. sel = Some (mode, fl, hps, step)
                  \<and> (mode = MODE_2M \<or> mode = MODE_1G) \<and> ms mod hps \<noteq> 0)
            \<or> vmpte_before env < 0 \<or> isl (mmap_result env))"
proof -
  have sel: "(sel = None) = (argv env ! 2 \<notin> set [''4k'', ''thp'', ''2m'', ''1g''])"
    using assms(3) by (auto simp: select_mode_def split: if_splits)
  have mis: "(\<exists>mode fl hps step. sel = Some (mode, fl, hps, step)
                  \<and> (mode = MODE_2M \<or> mode = MODE_1G) \<and> ms mod hps \<noteq> 0)
             = ((argv env ! 2 = ''2m'' \<and> ms mod 2097152 \<noteq> 0)
                \<or> (argv env ! 2 = ''1g'' \<and> ms mod 1073741824 \<noteq> 0))"
    using assms(3)
    by (auto simp: select_mode_def PAGE_SIZE_2M_def PAGE_SIZE_1G_def split: if_splits)
  have "fatal env =
          (ms = 0 \<or> argv env ! 2 \<notin> set [''4k'', ''thp'', ''2m'', ''1g'']
           \<or> ((argv env ! 2 = ''2m'' \<and> ms mod 2097152 \<noteq> 0)
                \<or> (argv env ! 2 = ''1g'' \<and> ms mod 1073741824 \<noteq> 0))
           \<or> vmpte_before env < 0 \<or> isl (mmap_result env))"
    unfolding fatal_def using assms(1,2) by auto
  then show ?thesis
    by (simp only: sel mis)
qed

lemma main_exit_status:
  assumes "main env = Some (tr, rc)"
  shows "rc = (if fatal env then 1 else 0)"
  using assms
proof (cases rule: main_cases)
  case usage
  then show ?thesis by (simp add: fatal_def)
next
  case parse
  then show ?thesis using rejected_iff [OF parse(2)] by (simp add: fatal_def)
next
  case (mode map_size t2)
  then show ?thesis using fatal_code [OF mode(1,2,4)] by simp
next
  case (align map_size t2 mode flags hps step)
  then show ?thesis using fatal_code [OF align(1,2,4)] by simp
next
  case (baseline map_size t2 mode flags hps step)
  then show ?thesis using fatal_code [OF baseline(1,2,4)] by simp
next
  case (mmap map_size t2 mode flags hps step err)
  then show ?thesis using fatal_code [OF mmap(1,2,4)] by simp
next
  case (full map_size t2 mode flags hps step addr stores touched_count)
  then show ?thesis using fatal_code [OF full(1,2,4)] by auto
qed

lemma main_fatal_returns:
  assumes "fatal env"
  shows "\<exists>tr. main env = Some (tr, 1)"
proof (cases "length (argv env) = 3")
  case False
  then show ?thesis using main_usage by blast
next
  case len: True
  obtain t1 ms where ps: "parse_size 0 (argv env ! 1) = (t1, ms)"
    by (cases "parse_size 0 (argv env ! 1)") auto
  obtain t2 sel where sm: "select_mode (argv env ! 2) = (t2, sel)"
    by (cases "select_mode (argv env ! 2)") auto
  note code = fatal_code [OF len ps sm]
  show ?thesis
  proof (cases "ms = 0")
    case True
    then show ?thesis using main_parse_failure [OF len] ps by auto
  next
    case nz: False
    have t1: "t1 = []"
      using ps nz by (rule parse_size_nonzero_accepted)
    note ps' = ps [unfolded t1]
    show ?thesis
    proof (cases sel)
      case None
      then show ?thesis using main_invalid_mode [OF len ps' nz] sm by blast
    next
      case (Some quad)
      obtain mode fl hps step where quad: "quad = (mode, fl, hps, step)"
        by (cases quad) auto
      note sm' = sm [unfolded Some quad]
      show ?thesis
      proof (cases "(mode = MODE_2M \<or> mode = MODE_1G) \<and> ms mod hps \<noteq> 0")
        case True
        then show ?thesis using main_misaligned [OF len ps' nz sm'] by blast
      next
        case aligned: False
        show ?thesis
        proof (cases "vmpte_before env < 0")
          case True
          then show ?thesis using main_no_baseline [OF len ps' nz sm' aligned] by blast
        next
          case base: False
          show ?thesis
          proof (cases "mmap_result env")
            case (Inl err)
            then show ?thesis using main_mmap_failed [OF len ps' nz sm' aligned base] by blast
          next
            case (Inr addr)
            with assms code nz Some quad aligned base show ?thesis by auto
          qed
        qed
      qed
    qed
  qed
qed

lemma touch_loop_returns_4k:
  assumes "unat map_size \<le> 2 ^ 64 - 4096"
  shows "\<exists>res. touch_loop map_size 4096 0 [] 0 = Some res"
proof -
  have "((unat map_size + 4096 - 1) div 4096) * 4096 \<le> unat map_size + 4096 - 1"
    by simp
  also have "\<dots> < 2 ^ 64"
    using assms by simp
  finally have "((unat map_size + unat (4096 :: size_t) - 1) div unat (4096 :: size_t))
                * unat (4096 :: size_t) < 2 ^ 64"
    by simp
  then show ?thesis
    using touch_loop_from_start [of 4096 map_size] by simp
qed

lemma touch_loop_returns_aligned:
  fixes map_size step :: size_t
  assumes s: "step \<noteq> 0" and al: "map_size mod step = 0"
  shows "\<exists>res. touch_loop map_size step 0 [] 0 = Some res"
proof -
  let ?N = "unat map_size" and ?S = "unat step"
  have S: "0 < ?S"
    using s by (simp add: unat_gt_0)
  have "unat (map_size mod step) = 0"
    using al by simp
  then have "?N mod ?S = 0"
    by (simp add: unat_mod)
  then have "?S dvd ?N"
    by (simp only: dvd_eq_mod_eq_0)
  then obtain q' where "?N = ?S * q'"
    by (rule dvdE)
  then have q: "?N = q' * ?S"
    by (simp only: mult.commute)
  define q where "q = q'"
  note q = q [folded q_def]
  have S0: "?S \<noteq> 0"
    using S by simp
  have "?S - 1 < ?S"
    using S by simp
  then have small: "(?S - 1) div ?S = 0"
    by (rule div_less)
  have "?N + ?S - 1 = (?S - 1) + q * ?S"
    using q S by linarith
  then have "(?N + ?S - 1) div ?S = ((?S - 1) + q * ?S) div ?S"
    by (rule arg_cong)
  also have "\<dots> = q + (?S - 1) div ?S"
    using S0 by (rule div_mult_self1)
  finally have "(?N + ?S - 1) div ?S = q"
    by (simp only: small add_0_right)
  then have "((?N + ?S - 1) div ?S) * ?S = ?N"
    by (simp only: q [symmetric])
  moreover have "?N < 2 ^ 64"
    using unsigned_less [of map_size, where ?'a = nat] by simp
  ultimately have "((?N + ?S - 1) div ?S) * ?S < 2 ^ 64"
    by simp
  then show ?thesis
    using touch_loop_from_start [OF s] by simp
qed

lemma select_mode_Some_cases:
  assumes "select_mode a = (t2, Some (mode, fl, hps, step))"
  shows "((a = ''4k'' \<or> a = ''thp'') \<and> mode \<noteq> MODE_2M \<and> mode \<noteq> MODE_1G \<and> step = 4096)
         \<or> ((a = ''2m'' \<or> a = ''1g'') \<and> (mode = MODE_2M \<or> mode = MODE_1G)
             \<and> step = hps \<and> step \<noteq> 0)"
  using assms
  by (auto simp: select_mode_def PAGE_SIZE_4K_def PAGE_SIZE_2M_def PAGE_SIZE_1G_def
      split: if_splits)

lemma main_nonfatal_returns:
  assumes nf: "\<not> fatal env"
    and fit: "argv env ! 2 = ''4k'' \<or> argv env ! 2 = ''thp'' \<longrightarrow>
              unat (snd (parse_size 0 (argv env ! 1))) \<le> 2 ^ 64 - 4096"
  shows "\<exists>tr. main env = Some (tr, 0)"
proof -
  have len: "length (argv env) = 3"
    using nf by (auto simp: fatal_def)
  obtain t1 ms where ps: "parse_size 0 (argv env ! 1) = (t1, ms)"
    by (cases "parse_size 0 (argv env ! 1)") auto
  obtain t2 sel where sm: "select_mode (argv env ! 2) = (t2, sel)"
    by (cases "select_mode (argv env ! 2)") auto
  note code = fatal_code [OF len ps sm]
  from nf code have nz: "ms \<noteq> 0" and "sel \<noteq> None" and base: "\<not> vmpte_before env < 0"
    and ok: "\<not> isl (mmap_result env)"
    by auto
  then obtain mode fl hps step where sel: "sel = Some (mode, fl, hps, step)"
    by (cases sel) auto
  from nf code sel have aligned: "\<not> ((mode = MODE_2M \<or> mode = MODE_1G) \<and> ms mod hps \<noteq> 0)"
    by auto
  from ok obtain addr where addr: "mmap_result env = Inr addr"
    by (cases "mmap_result env") auto
  have t1: "t1 = []"
    using ps nz by (rule parse_size_nonzero_accepted)
  note ps' = ps [unfolded t1]
  note sm' = sm [unfolded sel]
  have "\<exists>res. touch_loop ms step 0 [] 0 = Some res"
    using select_mode_Some_cases [OF sm']
  proof
    assume a: "(argv env ! 2 = ''4k'' \<or> argv env ! 2 = ''thp'') \<and> mode \<noteq> MODE_2M
               \<and> mode \<noteq> MODE_1G \<and> step = 4096"
    with fit ps have "unat ms \<le> 2 ^ 64 - 4096"
      by auto
    then show ?thesis
      using a touch_loop_returns_4k by simp
  next
    assume a: "(argv env ! 2 = ''2m'' \<or> argv env ! 2 = ''1g'')
               \<and> (mode = MODE_2M \<or> mode = MODE_1G) \<and> step = hps \<and> step \<noteq> 0"
    with aligned have "step \<noteq> 0" and "ms mod step = 0"
      by auto
    then show ?thesis
      by (rule touch_loop_returns_aligned)
  qed
  then obtain stores touched_count where
    "touch_loop ms step 0 [] 0 = Some (stores, touched_count)"
    by auto
  from main_full_run [OF len ps' nz sm' aligned base addr this] show ?thesis
    by blast
qed

lemma Getchar_calls: "(Getchar \<in> set tr) = (Getchar \<in> set (calls tr))"
  by (simp add: calls_def)

lemma is_munmap_calls: "filter is_munmap (calls tr) = filter is_munmap tr"
proof (induction tr)
  case Nil
  show ?case by simp
next
  case (Cons e tr)
  then show ?case by (cases e) simp_all
qed

section \<open>Facts about the stores of a run\<close>

lemma stores_select_mode: "select_mode a = (t2, sel) \<Longrightarrow> filter is_store t2 = []"
  by (auto simp: select_mode_def split: if_splits)

lemma stores_thp_warnings [simp]: "filter is_store (thp_warnings mode status) = []"
  by (simp add: thp_warnings_def)

lemma stores_madvise_hints [simp]:
  "filter is_store (madvise_hints mode status addr map_size ret) = []"
  by (simp add: madvise_hints_def)

lemma stores_stores [simp]:
  "filter is_store (map (\<lambda>(i, v). Store i v) stores) = map (\<lambda>(i, v). Store i v) stores"
  by (induction stores) auto

lemma stores_vmpte_report [simp]: "filter is_store (vmpte_report after) = []"
  by (simp add: vmpte_report_def)

lemma stores_theoretical_overheads [simp]:
  "filter is_store (theoretical_overheads map_size) = []"
  by (simp add: theoretical_overheads_def)

lemma stores_cleanup [simp]: "filter is_store (cleanup addr map_size ret) = []"
  by (simp add: cleanup_def)

lemma main_touches:
  assumes run: "main env = Some (tr, rc)"
    and mapped: "Mmap map_size flags (Inr addr) \<in> set tr"
  shows "\<exists>mode fl hps step stores touched_count.
           snd (select_mode (argv env ! 2)) = Some (mode, fl, hps, step) \<and>
           touch_loop map_size step 0 [] 0 = Some (stores, touched_count) \<and>
           filter is_store tr = map (\<lambda>(i, v). Store i v) stores \<and>
           Print Stdout ''Touched %zu strides.'' [touched_count] \<in> set tr"
proof -
  from mapped have mem: "Mmap map_size flags (Inr addr) \<in> set (filter is_mmap tr)"
    by simp
  from main_mmap_calls [OF run] consider
    "filter is_mmap tr = []"
    | ms fl err where "filter is_mmap tr = [Mmap ms fl (Inl err)]"
    | ms fl a where "filter is_mmap tr = [Mmap ms fl (Inr a)]" and "rc = 0"
    by blast
  then have ok: "rc = 0"
  proof cases
    case 1
    with mem show ?thesis by (simp only: list.set empty_iff)
  next
    case (2 ms fl err)
    from mem show ?thesis unfolding 2 by simp
  next
    case 3
    then show ?thesis by simp
  qed
  from run show ?thesis
  proof (cases rule: main_cases)
    case (full ms t2 m fl hps step a stores touched_count)
    from mem have "ms = map_size"
      unfolding full(9) using no_mapping_calls_select_mode [OF full(4)] by simp
    with full(8) have loop: "touch_loop map_size step 0 [] 0 = Some (stores, touched_count)"
      by simp
    have sel: "snd (select_mode (argv env ! 2)) = Some (m, fl, hps, step)"
      using full(4) by simp
    have st: "filter is_store tr = map (\<lambda>(i, v). Store i v) stores"
      unfolding full(9) using stores_select_mode [OF full(4)] by simp
    have pr: "Print Stdout ''Touched %zu strides.'' [touched_count] \<in> set tr"
      unfolding full(9) by simp
    from sel loop st pr show ?thesis
      by blast
  qed (use ok in simp_all)
qed

section \<open>C3: the strings parse_size accepts\<close>

text \<open>
  C3 (as amended). \<^verbatim>\<open>parse_size\<close> accepts only strings of the shape: optional
  leading white space, one optional sign, at least one decimal digit, an optional single
  suffix letter in \<open>{K,k,M,m,G,g}\<close>, end of string. For every input not of that shape
  parsing fails, with one diagnostic on standard error and the return value 0, and
  \<^verbatim>\<open>main\<close> returns 1 having done nothing else.
\<close>

theorem parse_size_accepts_only_shape:
  assumes "\<not> accepted_shape s"
  shows "(\<exists>msg. parse_size e s = ([Print Stderr msg []], 0)) \<and>
         main (env\<lparr>argv := [prog, s, mode_arg]\<rparr>) = Some (fst (parse_size 0 s), 1)"
proof
  have "rejected (parse_size e s)"
    using assms by (rule parse_size_rejects_shape)
  then show "\<exists>msg. parse_size e s = ([Print Stderr msg []], 0)"
    by (simp add: rejected_eq)
next
  have "rejected (parse_size 0 s)"
    using assms by (rule parse_size_rejects_shape)
  then have "snd (parse_size 0 s) = 0"
    by (simp add: rejected_iff)
  then show "main (env\<lparr>argv := [prog, s, mode_arg]\<rparr>) = Some (fst (parse_size 0 s), 1)"
    using main_parse_failure [of "env\<lparr>argv := [prog, s, mode_arg]\<rparr>"] by simp
qed

text \<open>The string "1.5G" is not of that shape, and is rejected.\<close>

theorem parse_size_accepts_only_shape_witness:
  "\<not> accepted_shape ''1.5G'' \<and>
   (\<exists>msg. parse_size 0 ''1.5G'' = ([Print Stderr msg []], 0)) \<and>
   main ((example_env ''1G'' ''4k'')\<lparr>argv := [''prog'', ''1.5G'', ''4k'']\<rparr>)
     = Some (fst (parse_size 0 ''1.5G''), 1)"
proof -
  have h: "\<not> accepted_shape ''1.5G''"
    by (simp add: accepted_shape_def size_grammar_def after_sign_def isspace_def isdigit_def)
  show ?thesis
    using h parse_size_accepts_only_shape [OF h, where e = 0
        and env = "example_env ''1G'' ''4k''" and prog = "''prog''" and mode_arg = "''4k''"]
    by blast
qed

text \<open>
  The grammar as the claim states it is too narrow: "+5" and " 5" have a leading sign
  and leading white space, and \<^verbatim>\<open>strtoull\<close> skips both, so each is accepted with the
  value 5.
\<close>

theorem parse_size_accepts_sign_counterexample:
  "\<not> size_grammar ''+5'' \<and> parse_size 0 ''+5'' = ([], 5) \<and>
   \<not> size_grammar '' 5'' \<and> parse_size 0 '' 5'' = ([], 5)"
  by (simp add: size_grammar_def parse_eval)

section \<open>C4: the causes of a parse failure\<close>

text \<open>
  C4. \<^verbatim>\<open>parse_size\<close> fails on "abc" as an invalid number, on "10X" as an invalid
  suffix, on "10K5" with trailing characters after the suffix and on "0" because the
  size is zero; in each case \<^verbatim>\<open>main\<close> prints nothing else, calls nothing and returns 1.
\<close>

theorem parse_size_failure_causes:
  "parse_size 0 ''abc''
     = ([Print Stderr ''Error: Invalid size value '%s'. Not a valid number.'' []], 0) \<and>
   parse_size 0 ''10X''
     = ([Print Stderr ''Error: Invalid size suffix '%c' in '%s'. Use K, M, or G.'' []], 0) \<and>
   parse_size 0 ''10K5''
     = ([Print Stderr (''Error: Trailing characters after suffix in '%s'' @ [CHR 0x27]) []],
        0) \<and>
   parse_size 0 ''0'' = ([Print Stderr ''Error: Mapping size cannot be zero.'' []], 0) \<and>
   main (env\<lparr>argv := [prog, ''abc'', mode_arg]\<rparr>)
     = Some ([Print Stderr ''Error: Invalid size value '%s'. Not a valid number.'' []], 1) \<and>
   main (env\<lparr>argv := [prog, ''10X'', mode_arg]\<rparr>)
     = Some ([Print Stderr ''Error: Invalid size suffix '%c' in '%s'. Use K, M, or G.'' []],
             1) \<and>
   main (env\<lparr>argv := [prog, ''10K5'', mode_arg]\<rparr>)
     = Some ([Print Stderr (''Error: Trailing characters after suffix in '%s'' @ [CHR 0x27])
                []], 1) \<and>
   main (env\<lparr>argv := [prog, ''0'', mode_arg]\<rparr>)
     = Some ([Print Stderr ''Error: Mapping size cannot be zero.'' []], 1)"
proof -
  have a: "parse_size 0 ''abc''
     = ([Print Stderr ''Error: Invalid size value '%s'. Not a valid number.'' []], 0)"
    by (simp add: parse_eval)
  have b: "parse_size 0 ''10X''
     = ([Print Stderr ''Error: Invalid size suffix '%c' in '%s'. Use K, M, or G.'' []], 0)"
    by (simp add: parse_eval)
  have c: "parse_size 0 ''10K5''
     = ([Print Stderr (''Error: Trailing characters after suffix in '%s'' @ [CHR 0x27]) []],
        0)"
    by (simp add: parse_eval)
  have d: "parse_size 0 ''0'' = ([Print Stderr ''Error: Mapping size cannot be zero.'' []], 0)"
    by (simp add: parse_eval)
  have m: "main (env\<lparr>argv := [prog, s, mode_arg]\<rparr>) = Some (t, 1)"
    if "parse_size 0 s = (t, 0)" for s t
    using that main_parse_failure [of "env\<lparr>argv := [prog, s, mode_arg]\<rparr>"] by simp
  show ?thesis
    using a b c d m [OF a] m [OF b] m [OF c] m [OF d] by (intro conjI)
qed

text \<open>The same runs in the example environment.\<close>

theorem parse_size_failure_causes_witness:
  "parse_size 0 ''abc''
     = ([Print Stderr ''Error: Invalid size value '%s'. Not a valid number.'' []], 0) \<and>
   main ((example_env ''1G'' ''4k'')\<lparr>argv := [''prog'', ''abc'', ''4k'']\<rparr>)
     = Some ([Print Stderr ''Error: Invalid size value '%s'. Not a valid number.'' []], 1) \<and>
   main ((example_env ''1G'' ''4k'')\<lparr>argv := [''prog'', ''0'', ''4k'']\<rparr>)
     = Some ([Print Stderr ''Error: Mapping size cannot be zero.'' []], 1)"
  using parse_size_failure_causes [where env = "example_env ''1G'' ''4k''"
      and prog = "''prog''" and mode_arg = "''4k''"]
  by blast

section \<open>Facts about the touch count of a run\<close>

text \<open>
  A touch loop that returns did not wrap around, when the stride divides \<open>2^64\<close>: after
  a wrap the index is 0 again and the loop starts over.
\<close>

lemma next_multiple_le:
  fixes S I M :: nat
  assumes "S dvd I" and "S dvd M" and "I < M"
  shows "I + S \<le> M"
proof -
  from assms(1) obtain a where a: "I = S * a" by (rule dvdE)
  from assms(2) obtain b where b: "M = S * b" by (rule dvdE)
  from assms(3) a b have "a < b"
    by (metis mult_less_cancel1)
  then have "Suc a \<le> b" by simp
  then have "S * Suc a \<le> S * b" by (rule mult_le_mono2)
  with a b show ?thesis by simp
qed

lemma touch_loop_no_wrap:
  assumes "touch_loop n s i st c = Some y"
  shows "0 < unat s \<longrightarrow> unat s dvd 2 ^ 64 \<longrightarrow> unat s dvd unat i \<longrightarrow>
         unat i + ((unat n - unat i + unat s - 1) div unat s) * unat s < 2 ^ 64"
proof (rule touch_loop.raw_induct
    [where P = "\<lambda>n s i st c y. 0 < unat s \<longrightarrow> unat s dvd 2 ^ 64 \<longrightarrow> unat s dvd unat i \<longrightarrow>
         unat i + ((unat n - unat i + unat s - 1) div unat s) * unat s < 2 ^ 64",
     OF _ assms])
  fix f :: "size_t \<Rightarrow> size_t \<Rightarrow> size_t \<Rightarrow> (size_t \<times> 8 word) list \<Rightarrow> size_t
            \<Rightarrow> ((size_t \<times> 8 word) list \<times> size_t) option"
    and n s i c :: size_t and st :: "(size_t \<times> 8 word) list"
    and y :: "(size_t \<times> 8 word) list \<times> size_t"
  assume hyp: "\<And>n s i st c y. f n s i st c = Some y \<Longrightarrow>
         0 < unat s \<longrightarrow> unat s dvd 2 ^ 64 \<longrightarrow> unat s dvd unat i \<longrightarrow>
         unat i + ((unat n - unat i + unat s - 1) div unat s) * unat s < 2 ^ 64"
    and body: "(if i < n
      then f n s (i + s) (st @ [(i, ucast (i mod 256))]) (c + 1)
      else Some (st, c)) = Some y"
  let ?N = "unat n" and ?S = "unat s" and ?I = "unat i"
  show "0 < ?S \<longrightarrow> ?S dvd 2 ^ 64 \<longrightarrow> ?S dvd ?I \<longrightarrow>
         ?I + ((?N - ?I + ?S - 1) div ?S) * ?S < 2 ^ 64"
  proof (intro impI)
    assume S: "0 < ?S" and d: "?S dvd 2 ^ 64" and di: "?S dvd ?I"
    have Ilt: "?I < 2 ^ 64"
      using unsigned_less [of i, where ?'a = nat] by simp
    show "?I + ((?N - ?I + ?S - 1) div ?S) * ?S < 2 ^ 64"
    proof (cases "i < n")
      case False
      then have "?N \<le> ?I"
        by (simp add: word_less_nat_alt)
      then have "?N - ?I + ?S - 1 < ?S"
        using S by linarith
      then have "(?N - ?I + ?S - 1) div ?S = 0"
        by simp
      with Ilt show ?thesis
        by simp
    next
      case True
      then have lt: "?I < ?N"
        by (simp add: word_less_nat_alt)
      from True body have rec: "f n s (i + s) (st @ [(i, ucast (i mod 256))]) (c + 1) = Some y"
        by simp
      note ih = hyp [OF rec, rule_format, OF S d]
      have le: "?I + ?S \<le> 2 ^ 64"
        using di d Ilt by (rule next_multiple_le)
      have "?S \<le> ?N - ?I + ?S - 1"
        using lt by linarith
      then have "1 \<le> (?N - ?I + ?S - 1) div ?S"
        using S by (metis One_nat_def Suc_leI div_greater_zero_iff)
      then obtain k where k: "(?N - ?I + ?S - 1) div ?S = Suc k"
        by (metis One_nat_def Suc_le_D)
      from remaining_strides_Suc [OF S k]
      have k': "(?N - (?I + ?S) + ?S - 1) div ?S = k"
        by simp
      show ?thesis
      proof (cases "?I + ?S < 2 ^ 64")
        case True
        then have "?I + ?S < 2 ^ LENGTH(64)"
          by simp
        then have step: "unat (i + s) = ?I + ?S"
          by (simp only: unat_add_lem [THEN iffD1])
        have "?S dvd unat (i + s)"
          using di by (simp only: step dvd_add_triv_right_iff)
        from ih [OF this] have "?I + ?S + k * ?S < 2 ^ 64"
          by (simp only: step k')
        then show ?thesis
          by (simp only: k mult_Suc add.assoc)
      next
        case False
        with le have eq: "?I + ?S = 2 ^ 64"
          by simp
        then have "unat (i + s) = 0"
          by (simp add: unat_word_ariths)
        then have z: "i + s = 0"
          by (simp add: unat_eq_zero)
        have "?S dvd unat (i + s)"
          by (simp add: z)
        from ih [OF this] have small: "((?N + ?S - 1) div ?S) * ?S < 2 ^ 64"
          by (simp add: z)
        have "2 ^ 64 \<le> ?N + ?S - 1"
          using lt eq by linarith
        then have "(2 ^ 64) div ?S \<le> (?N + ?S - 1) div ?S"
          by (rule div_le_mono)
        then have "((2 ^ 64) div ?S) * ?S \<le> ((?N + ?S - 1) div ?S) * ?S"
          by (rule mult_le_mono1)
        moreover have "((2 ^ 64) div ?S) * ?S = 2 ^ 64"
          using d by (rule dvd_div_mult_self)
        ultimately have "2 ^ 64 \<le> ((?N + ?S - 1) div ?S) * ?S"
          by (simp only:)
        with small show ?thesis
          by simp
      qed
    qed
  qed
qed

lemma select_mode_step_values:
  assumes "select_mode a = (t2, Some (mode, fl, hps, step))"
  shows "unat step = 4096 \<or> unat step = 2097152 \<or> unat step = 1073741824"
  using assms
  by (auto simp: select_mode_def PAGE_SIZE_4K_def PAGE_SIZE_2M_def PAGE_SIZE_1G_def
      split: if_splits)

lemma select_mode_stride:
  assumes "snd (select_mode a) = Some (mode, fl, hps, step)"
  shows "unat step = (if a = ''2m'' then 2097152 else if a = ''1g'' then 1073741824 else 4096)"
  using assms
  by (auto simp: select_mode_def PAGE_SIZE_4K_def PAGE_SIZE_2M_def PAGE_SIZE_1G_def
      split: if_splits)

lemma stride_divides:
  "S = 4096 \<or> S = 2097152 \<or> S = 1073741824 \<Longrightarrow> 0 < S \<and> S dvd (2 ^ 64 :: nat)"
proof -
  have "(4096 :: nat) dvd 2 ^ 64" "(2097152 :: nat) dvd 2 ^ 64" "(1073741824 :: nat) dvd 2 ^ 64"
    by (simp_all add: dvd_eq_mod_eq_0)
  then show "S = 4096 \<or> S = 2097152 \<or> S = 1073741824 \<Longrightarrow> 0 < S \<and> S dvd (2 ^ 64 :: nat)"
    by auto
qed

lemma touch_loop_result:
  fixes n s :: size_t
  assumes run: "touch_loop n s 0 [] 0 = Some (stores, touched_count)"
    and S: "0 < unat s" and d: "unat s dvd 2 ^ 64"
  shows "int (unat touched_count) = \<lceil>real (unat n) / real (unat s)\<rceil> \<and>
         stores = map (\<lambda>j. (of_nat (j * unat s), ucast (of_nat (j * unat s) mod (256 :: size_t))))
                    [0..<unat touched_count]"
proof -
  let ?N = "unat n" and ?S = "unat s"
  let ?k = "(?N + ?S - 1) div ?S"
  have s0: "s \<noteq> 0"
    using S by (simp add: unat_gt_0)
  have "?S dvd unat (0 :: size_t)"
    by simp
  with touch_loop_no_wrap [OF run] S d
  have "unat (0 :: size_t) + ((?N - unat (0 :: size_t) + ?S - 1) div ?S) * ?S < 2 ^ 64"
    by blast
  then have fit: "?k * ?S < 2 ^ 64"
    by simp
  have "?k \<le> ?k * ?S"
    using S by simp
  then have "?k < 2 ^ 64"
    using fit by (rule le_less_trans)
  then have cnt: "unat (of_nat ?k :: size_t) = ?k"
    by (simp add: unat_of_nat)
  have ceil: "\<lceil>real ?N / real ?S\<rceil> = int ?k"
    using S by (rule ceil_div_nat)
  from touch_loop_from_start [OF s0 fit] run
  have st: "stores = map (\<lambda>j. (of_nat (j * ?S), ucast (of_nat (j * ?S) mod (256 :: size_t))))
                       [0..<?k]"
    and tc: "touched_count = of_nat ?k"
    by simp_all
  show ?thesis
  proof
    show "int (unat touched_count) = \<lceil>real ?N / real ?S\<rceil>"
      by (simp only: tc cnt ceil)
    show "stores = map (\<lambda>j. (of_nat (j * ?S), ucast (of_nat (j * ?S) mod (256 :: size_t))))
                    [0..<unat touched_count]"
      by (simp only: tc cnt) (rule st)
  qed
qed

lemma main_touch_count:
  assumes run: "main env = Some (tr, rc)"
    and mapped: "Mmap map_size flags (Inr addr) \<in> set tr"
  shows "\<exists>mode fl hps step touched_count.
           snd (select_mode (argv env ! 2)) = Some (mode, fl, hps, step) \<and>
           unat step = (if argv env ! 2 = ''2m'' then 2097152
                        else if argv env ! 2 = ''1g'' then 1073741824 else 4096) \<and>
           int (unat touched_count) = \<lceil>real (unat map_size) / real (unat step)\<rceil> \<and>
           filter is_store tr
             = map (\<lambda>j. Store (of_nat (j * unat step))
                              (ucast (of_nat (j * unat step) mod (256 :: size_t))))
                 [0..<unat touched_count] \<and>
           Print Stdout ''Touched %zu strides.'' [touched_count] \<in> set tr"
proof -
  from main_touches [OF run mapped] obtain mode fl hps step stores touched_count where
    sel: "snd (select_mode (argv env ! 2)) = Some (mode, fl, hps, step)"
    and loop: "touch_loop map_size step 0 [] 0 = Some (stores, touched_count)"
    and st: "filter is_store tr = map (\<lambda>(i, v). Store i v) stores"
    and pr: "Print Stdout ''Touched %zu strides.'' [touched_count] \<in> set tr"
    by blast
  have "select_mode (argv env ! 2)
        = (fst (select_mode (argv env ! 2)), Some (mode, fl, hps, step))"
    using sel by (metis prod.collapse)
  then have "unat step = 4096 \<or> unat step = 2097152 \<or> unat step = 1073741824"
    by (rule select_mode_step_values)
  then have "0 < unat step \<and> unat step dvd 2 ^ 64"
    by (rule stride_divides)
  then have S: "0 < unat step" and d: "unat step dvd 2 ^ 64"
    by simp_all
  from touch_loop_result [OF loop S d]
  have cnt: "int (unat touched_count) = \<lceil>real (unat map_size) / real (unat step)\<rceil>"
    and stores: "stores = map (\<lambda>j. (of_nat (j * unat step),
                                       ucast (of_nat (j * unat step) mod (256 :: size_t))))
                            [0..<unat touched_count]"
    by simp_all
  have "map (\<lambda>(i, v). Store i v)
          (map (\<lambda>j. (of_nat (j * unat step) :: size_t,
                       ucast (of_nat (j * unat step) mod (256 :: size_t)) :: 8 word))
             [0..<unat touched_count])
        = map (\<lambda>j. Store (of_nat (j * unat step))
                         (ucast (of_nat (j * unat step) mod (256 :: size_t))))
            [0..<unat touched_count]"
    by simp
  with st stores have st': "filter is_store tr
             = map (\<lambda>j. Store (of_nat (j * unat step))
                              (ucast (of_nat (j * unat step) mod (256 :: size_t))))
                 [0..<unat touched_count]"
    by (simp only:)
  note stride = select_mode_stride [OF sel]
  from sel stride cnt st' pr show ?thesis
    by blast
qed

lemma main_maps:
  assumes "main env = Some (tr, 0)"
  shows "\<exists>flags addr. Mmap (snd (parse_size 0 (argv env ! 1))) flags (Inr addr) \<in> set tr"
proof -
  from main_mmap_calls [OF assms] obtain map_size flags addr where
    ps: "parse_size 0 (argv env ! 1) = ([], map_size)"
    and f: "filter is_mmap tr = [Mmap map_size flags (Inr addr)]"
    by auto
  have "Mmap map_size flags (Inr addr) \<in> set (filter is_mmap tr)"
    by (simp only: f list.set insert_iff simp_thms)
  then have "Mmap map_size flags (Inr addr) \<in> set tr"
    by simp
  with ps show ?thesis
    by auto
qed

lemma main_touch_total:
  assumes nf: "\<not> fatal env"
    and fit: "argv env ! 2 = ''4k'' \<or> argv env ! 2 = ''thp'' \<longrightarrow>
              unat (snd (parse_size 0 (argv env ! 1))) \<le> 2 ^ 64 - 4096"
  shows "\<exists>tr flags addr mode fl hps step touched_count.
           main env = Some (tr, 0) \<and>
           Mmap (snd (parse_size 0 (argv env ! 1))) flags (Inr addr) \<in> set tr \<and>
           snd (select_mode (argv env ! 2)) = Some (mode, fl, hps, step) \<and>
           unat step = (if argv env ! 2 = ''2m'' then 2097152
                        else if argv env ! 2 = ''1g'' then 1073741824 else 4096) \<and>
           int (unat touched_count)
             = \<lceil>real (unat (snd (parse_size 0 (argv env ! 1)))) / real (unat step)\<rceil> \<and>
           filter is_store tr
             = map (\<lambda>j. Store (of_nat (j * unat step))
                              (ucast (of_nat (j * unat step) mod (256 :: size_t))))
                 [0..<unat touched_count] \<and>
           Print Stdout ''Touched %zu strides.'' [touched_count] \<in> set tr"
proof -
  from main_nonfatal_returns [OF nf fit] obtain tr where run: "main env = Some (tr, 0)"
    by blast
  from main_maps [OF run] obtain flags addr where
    mapped: "Mmap (snd (parse_size 0 (argv env ! 1))) flags (Inr addr) \<in> set tr"
    by blast
  from main_touch_count [OF run mapped] obtain mode fl hps step touched_count where
    "snd (select_mode (argv env ! 2)) = Some (mode, fl, hps, step)"
    "unat step = (if argv env ! 2 = ''2m'' then 2097152
                  else if argv env ! 2 = ''1g'' then 1073741824 else 4096)"
    "int (unat touched_count)
       = \<lceil>real (unat (snd (parse_size 0 (argv env ! 1)))) / real (unat step)\<rceil>"
    "filter is_store tr
             = map (\<lambda>j. Store (of_nat (j * unat step))
                              (ucast (of_nat (j * unat step) mod (256 :: size_t))))
                 [0..<unat touched_count]"
    "Print Stdout ''Touched %zu strides.'' [touched_count] \<in> set tr"
    by blast
  with run mapped show ?thesis
    by blast
qed

section \<open>C5: the touch loop\<close>

text \<open>
  C5. The stride is 4096 bytes for modes 4k and thp, 2 MiB for mode 2m and 1 GiB for mode
  1g. Every run of \<^verbatim>\<open>main\<close> that is of no fatal class, so that \<^verbatim>\<open>mmap\<close> succeeded,
  returns 0, and in it the touch loop stores one byte, the low byte of its offset, at
  offset \<open>j * stride\<close> for every \<open>j\<close> below the final \<^verbatim>\<open>touched_count\<close>, which is
  \<open>ceil(size / stride)\<close> and is what the run prints: one store at the start of every
  stride-sized interval of the mapping. In modes 4k and thp this is for sizes up to
  \<open>2^64 - 4096\<close>, the sizes of the regions of an address space of \<open>2^64\<close> bytes that
  start at a nonzero page boundary; in modes 2m and 1g the alignment check of
  \<^verbatim>\<open>main\<close> bounds the size. Without a bound, the count and the stores are the same
  in every run that returns after a successful \<^verbatim>\<open>mmap\<close>: a loop that returns did not
  wrap around.
  The loop itself, for any size and nonzero stride such that the size rounded up to a
  multiple of the stride fits into a \<^verbatim>\<open>size_t\<close>, returns with
  \<^verbatim>\<open>touched_count\<close> \<open>= ceil(size / stride)\<close> and these stores.
\<close>

theorem touch_loop_count:
  "map (\<lambda>a. map_option (\<lambda>(mode, flags, hps, step). (mode, unat step)) (snd (select_mode a)))
     [''4k'', ''thp'', ''2m'', ''1g'']
   = [Some (MODE_4K, 4096), Some (MODE_THP, 4096), Some (MODE_2M, 2097152),
      Some (MODE_1G, 1073741824)] \<and>
   (touch_step_size \<noteq> 0 \<longrightarrow>
    \<lceil>real (unat map_size) / real (unat touch_step_size)\<rceil> * int (unat touch_step_size) < 2 ^ 64 \<longrightarrow>
    (\<exists>stores touched_count.
       touch_loop map_size touch_step_size 0 [] 0 = Some (stores, touched_count) \<and>
       int (unat touched_count) = \<lceil>real (unat map_size) / real (unat touch_step_size)\<rceil> \<and>
       stores = map (\<lambda>j. (of_nat (j * unat touch_step_size),
                            ucast (of_nat (j * unat touch_step_size) mod (256 :: size_t))))
                  [0..<unat touched_count])) \<and>
   (\<forall>tr rc mapped flags addr.
      main env = Some (tr, rc) \<longrightarrow> Mmap mapped flags (Inr addr) \<in> set tr \<longrightarrow>
      (\<exists>mode fl hps step stores touched_count.
         snd (select_mode (argv env ! 2)) = Some (mode, fl, hps, step) \<and>
         touch_loop mapped step 0 [] 0 = Some (stores, touched_count) \<and>
         filter is_store tr = map (\<lambda>(i, v). Store i v) stores \<and>
         Print Stdout ''Touched %zu strides.'' [touched_count] \<in> set tr)) \<and>
   (\<not> fatal env \<longrightarrow>
      (argv env ! 2 = ''4k'' \<or> argv env ! 2 = ''thp'' \<longrightarrow>
         unat (snd (parse_size 0 (argv env ! 1))) \<le> 2 ^ 64 - 4096) \<longrightarrow>
      (\<exists>tr flags addr mode fl hps step touched_count.
         main env = Some (tr, 0) \<and>
         Mmap (snd (parse_size 0 (argv env ! 1))) flags (Inr addr) \<in> set tr \<and>
         snd (select_mode (argv env ! 2)) = Some (mode, fl, hps, step) \<and>
         unat step = (if argv env ! 2 = ''2m'' then 2097152
                      else if argv env ! 2 = ''1g'' then 1073741824 else 4096) \<and>
         int (unat touched_count)
           = \<lceil>real (unat (snd (parse_size 0 (argv env ! 1)))) / real (unat step)\<rceil> \<and>
         filter is_store tr
           = map (\<lambda>j. Store (of_nat (j * unat step))
                            (ucast (of_nat (j * unat step) mod (256 :: size_t))))
               [0..<unat touched_count] \<and>
         Print Stdout ''Touched %zu strides.'' [touched_count] \<in> set tr)) \<and>
   (\<forall>tr rc mapped flags addr.
      main env = Some (tr, rc) \<longrightarrow> Mmap mapped flags (Inr addr) \<in> set tr \<longrightarrow>
      (\<exists>mode fl hps step touched_count.
         snd (select_mode (argv env ! 2)) = Some (mode, fl, hps, step) \<and>
         unat step = (if argv env ! 2 = ''2m'' then 2097152
                      else if argv env ! 2 = ''1g'' then 1073741824 else 4096) \<and>
         int (unat touched_count) = \<lceil>real (unat mapped) / real (unat step)\<rceil> \<and>
         filter is_store tr
           = map (\<lambda>j. Store (of_nat (j * unat step))
                            (ucast (of_nat (j * unat step) mod (256 :: size_t))))
               [0..<unat touched_count] \<and>
         Print Stdout ''Touched %zu strides.'' [touched_count] \<in> set tr))"
proof (intro conjI impI allI)
  show "map (\<lambda>a. map_option (\<lambda>(mode, flags, hps, step). (mode, unat step)) (snd (select_mode a)))
     [''4k'', ''thp'', ''2m'', ''1g'']
   = [Some (MODE_4K, 4096), Some (MODE_THP, 4096), Some (MODE_2M, 2097152),
      Some (MODE_1G, 1073741824)]"
    by (rule select_mode_steps)
next
  let ?N = "unat map_size" and ?S = "unat touch_step_size"
  let ?k = "(?N + ?S - 1) div ?S"
  assume s: "touch_step_size \<noteq> 0"
    and fit: "\<lceil>real ?N / real ?S\<rceil> * int ?S < 2 ^ 64"
  have S: "0 < ?S"
    using s by (simp add: unat_gt_0)
  have ceil: "\<lceil>real ?N / real ?S\<rceil> = int ?k"
    using S by (rule ceil_div_nat)
  from fit have "int ?k * int ?S < 2 ^ 64"
    by (simp only: ceil)
  then have "int (?k * ?S) < int (2 ^ 64)"
    by (simp only: of_nat_mult of_nat_power of_nat_numeral)
  then have fit': "?k * ?S < 2 ^ 64"
    by (simp only: of_nat_less_iff)
  have "?k \<le> ?k * ?S"
    using S by simp
  then have "?k < 2 ^ 64"
    using fit' by (rule le_less_trans)
  then have cnt: "unat (of_nat ?k :: size_t) = ?k"
    by (simp add: unat_of_nat)
  have run: "touch_loop map_size touch_step_size 0 [] 0
         = Some (map (\<lambda>j. (of_nat (j * ?S), ucast (of_nat (j * ?S) mod (256 :: size_t))))
                   [0..<?k], of_nat ?k)"
    using s fit' by (rule touch_loop_from_start)
  show "\<exists>stores touched_count.
       touch_loop map_size touch_step_size 0 [] 0 = Some (stores, touched_count) \<and>
       int (unat touched_count) = \<lceil>real ?N / real ?S\<rceil> \<and>
       stores = map (\<lambda>j. (of_nat (j * ?S), ucast (of_nat (j * ?S) mod (256 :: size_t))))
                  [0..<unat touched_count]"
  proof (intro exI conjI)
    show "touch_loop map_size touch_step_size 0 [] 0
         = Some (map (\<lambda>j. (of_nat (j * ?S), ucast (of_nat (j * ?S) mod (256 :: size_t))))
                   [0..<?k], of_nat ?k)"
      by (rule run)
    show "int (unat (of_nat ?k :: size_t)) = \<lceil>real ?N / real ?S\<rceil>"
      by (simp only: ceil cnt)
    show "map (\<lambda>j. (of_nat (j * ?S), ucast (of_nat (j * ?S) mod (256 :: size_t)))) [0..<?k]
          = map (\<lambda>j. (of_nat (j * ?S), ucast (of_nat (j * ?S) mod (256 :: size_t))))
              [0..<unat (of_nat ?k :: size_t)]"
      by (simp only: cnt)
  qed
next
  fix tr rc mapped flags addr
  assume "main env = Some (tr, rc)" and "Mmap mapped flags (Inr addr) \<in> set tr"
  then show "\<exists>mode fl hps step stores touched_count.
         snd (select_mode (argv env ! 2)) = Some (mode, fl, hps, step) \<and>
         touch_loop mapped step 0 [] 0 = Some (stores, touched_count) \<and>
         filter is_store tr = map (\<lambda>(i, v). Store i v) stores \<and>
         Print Stdout ''Touched %zu strides.'' [touched_count] \<in> set tr"
    by (rule main_touches)
next
  assume "\<not> fatal env"
    and "argv env ! 2 = ''4k'' \<or> argv env ! 2 = ''thp'' \<longrightarrow>
         unat (snd (parse_size 0 (argv env ! 1))) \<le> 2 ^ 64 - 4096"
  then show "\<exists>tr flags addr mode fl hps step touched_count.
        main env = Some (tr, 0) \<and>
        Mmap (snd (parse_size 0 (argv env ! 1))) flags (Inr addr) \<in> set tr \<and>
        snd (select_mode (argv env ! 2)) = Some (mode, fl, hps, step) \<and>
        unat step = (if argv env ! 2 = ''2m'' then 2097152
                     else if argv env ! 2 = ''1g'' then 1073741824 else 4096) \<and>
        int (unat touched_count)
          = \<lceil>real (unat (snd (parse_size 0 (argv env ! 1)))) / real (unat step)\<rceil> \<and>
        filter is_store tr
          = map (\<lambda>j. Store (of_nat (j * unat step))
                           (ucast (of_nat (j * unat step) mod (256 :: size_t))))
              [0..<unat touched_count] \<and>
        Print Stdout ''Touched %zu strides.'' [touched_count] \<in> set tr"
    by (rule main_touch_total)
next
  fix tr rc mapped flags addr
  assume "main env = Some (tr, rc)" and "Mmap mapped flags (Inr addr) \<in> set tr"
  then show "\<exists>mode fl hps step touched_count.
         snd (select_mode (argv env ! 2)) = Some (mode, fl, hps, step) \<and>
         unat step = (if argv env ! 2 = ''2m'' then 2097152
                      else if argv env ! 2 = ''1g'' then 1073741824 else 4096) \<and>
         int (unat touched_count) = \<lceil>real (unat mapped) / real (unat step)\<rceil> \<and>
         filter is_store tr
           = map (\<lambda>j. Store (of_nat (j * unat step))
                            (ucast (of_nat (j * unat step) mod (256 :: size_t))))
               [0..<unat touched_count] \<and>
         Print Stdout ''Touched %zu strides.'' [touched_count] \<in> set tr"
    by (rule main_touch_count)
qed

text \<open>
  Two runs of \<^verbatim>\<open>main\<close> in the example environment. Size "10K" in mode thp: 3 touches,
  at offsets 0, 4096 and 8192. Size "6M" in mode 2m: 3 touches, at offsets 0, 2 MiB and
  4 MiB. And the example of the claim for the loop: size 5 MiB with stride 2 MiB gives 3
  touches, at offsets 0, 2 MiB and 4 MiB; \<^verbatim>\<open>main\<close> itself admits only multiples of
  2 MiB in mode 2m.
\<close>

theorem touch_loop_count_witness:
  "\<not> fatal (example_env ''10K'' ''thp'') \<and>
   (\<exists>tr. main (example_env ''10K'' ''thp'') = Some (tr, 0) \<and>
         filter is_store tr = [Store 0 0, Store 4096 0, Store 8192 0] \<and>
         Print Stdout ''Touched %zu strides.'' [3] \<in> set tr) \<and>
   \<not> fatal (example_env ''6M'' ''2m'') \<and>
   (\<exists>tr. main (example_env ''6M'' ''2m'') = Some (tr, 0) \<and>
         filter is_store tr = [Store 0 0, Store 2097152 0, Store 4194304 0] \<and>
         Print Stdout ''Touched %zu strides.'' [3] \<in> set tr) \<and>
   touch_loop 5242880 2097152 0 [] 0 = Some ([(0, 0), (2097152, 0), (4194304, 0)], 3) \<and>
   \<lceil>real (unat (5242880 :: size_t)) / real (unat (2097152 :: size_t))\<rceil> = 3"
proof -
  have run: "\<exists>tr. main (example_env size_arg mode_arg) = Some (tr, 0) \<and>
         filter is_store tr = [Store 0 0, Store stride 0, Store (2 * stride) 0] \<and>
         Print Stdout ''Touched %zu strides.'' [3] \<in> set tr"
    if nf: "\<not> fatal (example_env size_arg mode_arg)"
      and ps: "parse_size 0 size_arg = ([], bytes)"
      and fit: "unat bytes \<le> 2 ^ 64 - 4096"
      and stride: "unat stride = (if mode_arg = ''2m'' then 2097152
                     else if mode_arg = ''1g'' then 1073741824 else 4096)"
      and three: "\<lceil>real (unat bytes) / real (unat stride)\<rceil> = 3"
      and low: "ucast (stride mod 256) = (0 :: 8 word)"
              "ucast ((2 * stride) mod 256) = (0 :: 8 word)"
    for size_arg mode_arg and bytes stride :: size_t
  proof -
    let ?env = "example_env size_arg mode_arg"
    have a1: "argv ?env ! 1 = size_arg" and a2: "argv ?env ! 2 = mode_arg"
      by (simp_all add: example_env_def)
    have fit': "argv ?env ! 2 = ''4k'' \<or> argv ?env ! 2 = ''thp'' \<longrightarrow>
              unat (snd (parse_size 0 (argv ?env ! 1))) \<le> 2 ^ 64 - 4096"
      using fit by (simp only: a1 ps snd_conv simp_thms)
    from touch_loop_count [where env = ?env]
    have "\<not> fatal ?env \<longrightarrow>
      (argv ?env ! 2 = ''4k'' \<or> argv ?env ! 2 = ''thp'' \<longrightarrow>
         unat (snd (parse_size 0 (argv ?env ! 1))) \<le> 2 ^ 64 - 4096) \<longrightarrow>
      (\<exists>tr flags addr mode fl hps step touched_count.
         main ?env = Some (tr, 0) \<and>
         Mmap (snd (parse_size 0 (argv ?env ! 1))) flags (Inr addr) \<in> set tr \<and>
         snd (select_mode (argv ?env ! 2)) = Some (mode, fl, hps, step) \<and>
         unat step = (if argv ?env ! 2 = ''2m'' then 2097152
                      else if argv ?env ! 2 = ''1g'' then 1073741824 else 4096) \<and>
         int (unat touched_count)
           = \<lceil>real (unat (snd (parse_size 0 (argv ?env ! 1)))) / real (unat step)\<rceil> \<and>
         filter is_store tr
           = map (\<lambda>j. Store (of_nat (j * unat step))
                            (ucast (of_nat (j * unat step) mod (256 :: size_t))))
               [0..<unat touched_count] \<and>
         Print Stdout ''Touched %zu strides.'' [touched_count] \<in> set tr)"
      by (rule conjunct2 [THEN conjunct2, THEN conjunct2, THEN conjunct1])
    from this [THEN mp, OF nf, THEN mp, OF fit']
    obtain tr flags addr mode fl hps step touched_count where
      r: "main ?env = Some (tr, 0)"
      and mm: "Mmap (snd (parse_size 0 (argv ?env ! 1))) flags (Inr addr) \<in> set tr"
      and sm: "snd (select_mode (argv ?env ! 2)) = Some (mode, fl, hps, step)"
      and st: "unat step = (if argv ?env ! 2 = ''2m'' then 2097152
                      else if argv ?env ! 2 = ''1g'' then 1073741824 else 4096)"
      and n: "int (unat touched_count)
           = \<lceil>real (unat (snd (parse_size 0 (argv ?env ! 1)))) / real (unat step)\<rceil>"
      and stores: "filter is_store tr
           = map (\<lambda>j. Store (of_nat (j * unat step))
                            (ucast (of_nat (j * unat step) mod (256 :: size_t))))
               [0..<unat touched_count]"
      and pr: "Print Stdout ''Touched %zu strides.'' [touched_count] \<in> set tr"
      by (elim exE conjE)
    have "unat step = unat stride"
      using st stride by (simp only: a2)
    then have step: "step = stride"
      by (simp only: word_unat_eq_iff)
    from n have "int (unat touched_count) = 3"
      by (simp only: a1 ps snd_conv step three)
    then have n3: "unat touched_count = 3"
      by linarith
    then have tc: "touched_count = 3"
      by (simp add: word_unat_eq_iff)
    have off: "(of_nat (j * unat stride) :: size_t) = of_nat j * stride" for j
      by (simp only: of_nat_mult of_nat_unat ucast_id)
    have "filter is_store tr = [Store 0 0, Store stride 0, Store (2 * stride) 0]"
      unfolding stores n3 step off using low by (simp add: upt_rec)
    with r pr tc show ?thesis
      by (intro exI conjI) simp_all
  qed
  have p10: "parse_size 0 ''10K'' = ([], 10240)"
    by (simp add: parse_eval)
  have p6: "parse_size 0 ''6M'' = ([], 6291456)"
    by (simp add: parse_eval)
  have nf10: "\<not> fatal (example_env ''10K'' ''thp'')"
    by (simp add: fatal_def example_env_def p10)
  have nf6: "\<not> fatal (example_env ''6M'' ''2m'')"
    by (simp add: fatal_def example_env_def p6)
  have r10: "\<exists>tr. main (example_env ''10K'' ''thp'') = Some (tr, 0) \<and>
         filter is_store tr = [Store 0 0, Store 4096 0, Store 8192 0] \<and>
         Print Stdout ''Touched %zu strides.'' [3] \<in> set tr"
    using run [OF nf10 p10, of 4096] by simp
  have r6: "\<exists>tr. main (example_env ''6M'' ''2m'') = Some (tr, 0) \<and>
         filter is_store tr = [Store 0 0, Store 2097152 0, Store 4194304 0] \<and>
         Print Stdout ''Touched %zu strides.'' [3] \<in> set tr"
    using run [OF nf6 p6, of 2097152] by simp
  have c: "\<lceil>real (unat (5242880 :: size_t)) / real (unat (2097152 :: size_t))\<rceil> = 3"
    by simp
  have s: "(2097152 :: size_t) \<noteq> 0"
    by simp
  have fit: "\<lceil>real (unat (5242880 :: size_t)) / real (unat (2097152 :: size_t))\<rceil>
             * int (unat (2097152 :: size_t)) < 2 ^ 64"
    by simp
  from touch_loop_count [where touch_step_size = 2097152 and map_size = 5242880]
  have "(2097152 :: size_t) \<noteq> 0 \<longrightarrow>
    \<lceil>real (unat (5242880 :: size_t)) / real (unat (2097152 :: size_t))\<rceil>
      * int (unat (2097152 :: size_t)) < 2 ^ 64 \<longrightarrow>
    (\<exists>stores touched_count.
       touch_loop 5242880 2097152 0 [] 0 = Some (stores, touched_count) \<and>
       int (unat touched_count)
         = \<lceil>real (unat (5242880 :: size_t)) / real (unat (2097152 :: size_t))\<rceil> \<and>
       stores = map (\<lambda>j. (of_nat (j * unat (2097152 :: size_t)),
                            ucast (of_nat (j * unat (2097152 :: size_t)) mod (256 :: size_t))))
                  [0..<unat touched_count])"
    by (rule conjunct2 [THEN conjunct1])
  from this [THEN mp, OF s, THEN mp, OF fit]
  obtain stores touched_count where
    loop: "touch_loop 5242880 2097152 0 [] 0 = Some (stores, touched_count)"
    and n: "int (unat touched_count)
            = \<lceil>real (unat (5242880 :: size_t)) / real (unat (2097152 :: size_t))\<rceil>"
    and st: "stores = map (\<lambda>j. (of_nat (j * unat (2097152 :: size_t)),
                            ucast (of_nat (j * unat (2097152 :: size_t)) mod (256 :: size_t))))
                  [0..<unat touched_count]"
    by blast
  from n have n3: "unat touched_count = 3"
    by (simp only: c)
  then have "touched_count = 3"
    by (simp add: word_unat_eq_iff)
  moreover have "stores = [(0, 0), (2097152, 0), (4194304, 0)]"
    unfolding st n3 by (simp add: upt_rec)
  ultimately have l5: "touch_loop 5242880 2097152 0 [] 0
                       = Some ([(0, 0), (2097152, 0), (4194304, 0)], 3)"
    using loop by simp
  show ?thesis
    using nf10 r10 nf6 r6 l5 c by (intro conjI)
qed

section \<open>C6: sizes that are not a multiple of the huge page size\<close>

lemma select_mode_huge:
  assumes "mode_arg = ''2m'' \<and> huge = 2097152 \<or> mode_arg = ''1g'' \<and> huge = 1073741824"
  shows "\<exists>mode flags. select_mode mode_arg
           = (fst (select_mode mode_arg), Some (mode, flags, huge, huge))
         \<and> (mode = MODE_2M \<or> mode = MODE_1G)"
  using assms by (auto simp: select_mode_def PAGE_SIZE_2M_def PAGE_SIZE_1G_def)

text \<open>
  C6. For modes 2m and 1g (huge page size 2 MiB and 1 GiB), if the parsed size is not an
  exact multiple of the huge page size, \<^verbatim>\<open>main\<close> prints the mode banner and the
  validation error and returns 1 having called nothing: no \<^verbatim>\<open>mmap\<close>, not even the
  probes. A size that is a multiple passes the check: every run that returns went on to
  \<^verbatim>\<open>check_thp_status()\<close>.
\<close>

theorem misaligned_size_rejected:
  assumes args: "argv env = [prog, size_arg, mode_arg]"
    and huge: "mode_arg = ''2m'' \<and> huge = 2097152 \<or> mode_arg = ''1g'' \<and> huge = 1073741824"
    and parsed: "parse_size 0 size_arg = ([], map_size)"
  shows "(map_size mod huge \<noteq> 0 \<longrightarrow>
            main env = Some (fst (select_mode mode_arg)
                             @ [Print Stderr
                                  ''Error: Mapping size %zu bytes must be a multiple of the huge page size (%zu bytes) for mode %s.''
                                  [map_size, huge]], 1) \<and>
            calls (fst (select_mode mode_arg)) = []) \<and>
         (map_size mod huge = 0 \<longrightarrow>
            (\<forall>tr rc. main env = Some (tr, rc) \<longrightarrow> CheckThpStatus \<in> set tr))"
proof -
  have len: "length (argv env) = 3" and a1: "argv env ! 1 = size_arg"
    and a2: "argv env ! 2 = mode_arg"
    using args by simp_all
  have ps: "parse_size 0 (argv env ! 1) = ([], map_size)"
    using parsed a1 by simp
  have nz: "map_size \<noteq> 0"
    using parse_size_outcome [of 0 size_arg] parsed by (auto simp: rejected_eq)
  from select_mode_huge [OF huge] obtain mode flags where
    sm: "select_mode mode_arg = (fst (select_mode mode_arg), Some (mode, flags, huge, huge))"
    and md: "mode = MODE_2M \<or> mode = MODE_1G"
    by blast
  have sm': "select_mode (argv env ! 2)
             = (fst (select_mode mode_arg), Some (mode, flags, huge, huge))"
    using sm a2 by simp
  have quiet: "calls (fst (select_mode mode_arg)) = []"
    using sm by (rule calls_select_mode)
  have bad: "main env = Some (fst (select_mode mode_arg)
                             @ [Print Stderr
                                  ''Error: Mapping size %zu bytes must be a multiple of the huge page size (%zu bytes) for mode %s.''
                                  [map_size, huge]], 1)"
    if "map_size mod huge \<noteq> 0"
    using len ps nz sm' md that by (rule main_misaligned)
  have good: "CheckThpStatus \<in> set tr"
    if al: "map_size mod huge = 0" and run: "main env = Some (tr, rc)" for tr rc
    using run
  proof (cases rule: main_cases)
    case usage
    with len show ?thesis by simp
  next
    case parse
    with ps nz show ?thesis by (simp add: rejected_eq)
  next
    case (mode ms t2)
    with sm' show ?thesis by simp
  next
    case (align ms t2 m fl hps step)
    with sm' ps al show ?thesis by simp
  next
    case (baseline ms t2 m fl hps step)
    then show ?thesis by simp
  next
    case (mmap ms t2 m fl hps step err)
    then show ?thesis by simp
  next
    case (full ms t2 m fl hps step addr stores touched_count)
    then show ?thesis by simp
  qed
  show ?thesis
  proof (intro conjI impI allI)
    assume "map_size mod huge \<noteq> 0"
    then show "main env = Some (fst (select_mode mode_arg)
                             @ [Print Stderr
                                  ''Error: Mapping size %zu bytes must be a multiple of the huge page size (%zu bytes) for mode %s.''
                                  [map_size, huge]], 1)"
      by (rule bad)
  next
    show "calls (fst (select_mode mode_arg)) = []"
      by (rule quiet)
  next
    fix tr rc
    assume "map_size mod huge = 0" and "main env = Some (tr, rc)"
    then show "CheckThpStatus \<in> set tr"
      by (rule good)
  qed
qed

text \<open>
  The examples of the claim: size "3M" with mode "2m" is rejected without mapping, and
  size "2M" with mode "2m" passes the check and runs to the end.
\<close>

theorem misaligned_size_rejected_witness:
  "parse_size 0 ''3M'' = ([], 3145728) \<and> (3145728 :: size_t) mod 2097152 \<noteq> 0 \<and>
   main (example_env ''3M'' ''2m'')
     = Some ([Print Stdout ''Mode: Explicit 2MB HugeTLB pages'' [],
              Print Stderr
                ''Error: Mapping size %zu bytes must be a multiple of the huge page size (%zu bytes) for mode %s.''
                [3145728, 2097152]], 1) \<and>
   parse_size 0 ''2M'' = ([], 2097152) \<and> (2097152 :: size_t) mod 2097152 = 0 \<and>
   (\<exists>tr. main (example_env ''2M'' ''2m'') = Some (tr, 0) \<and> CheckThpStatus \<in> set tr)"
proof -
  have p3: "parse_size 0 ''3M'' = ([], 3145728)"
    by (simp add: parse_eval)
  have p2: "parse_size 0 ''2M'' = ([], 2097152)"
    by (simp add: parse_eval)
  have m3: "(3145728 :: size_t) mod 2097152 \<noteq> 0"
    by simp
  have m2: "(2097152 :: size_t) mod 2097152 = 0"
    by simp
  have a3: "argv (example_env ''3M'' ''2m'') = [''mmap_overhead_estimator'', ''3M'', ''2m'']"
    by (simp add: example_env_def)
  have a2: "argv (example_env ''2M'' ''2m'') = [''mmap_overhead_estimator'', ''2M'', ''2m'']"
    by (simp add: example_env_def)
  have h: "''2m'' = ''2m'' \<and> (2097152 :: size_t) = 2097152
           \<or> ''2m'' = ''1g'' \<and> (2097152 :: size_t) = 1073741824"
    by simp
  have bad: "main (example_env ''3M'' ''2m'')
     = Some ([Print Stdout ''Mode: Explicit 2MB HugeTLB pages'' [],
              Print Stderr
                ''Error: Mapping size %zu bytes must be a multiple of the huge page size (%zu bytes) for mode %s.''
                [3145728, 2097152]], 1)"
    using misaligned_size_rejected [OF a3 h p3] m3 by (simp add: select_mode_def)
  have returns: "\<exists>tr. main (example_env ''2M'' ''2m'') = Some (tr, 0)"
  proof (rule main_nonfatal_returns)
    show "\<not> fatal (example_env ''2M'' ''2m'')"
      by (simp add: fatal_def example_env_def p2)
    show "argv (example_env ''2M'' ''2m'') ! 2 = ''4k''
          \<or> argv (example_env ''2M'' ''2m'') ! 2 = ''thp'' \<longrightarrow>
          unat (snd (parse_size 0 (argv (example_env ''2M'' ''2m'') ! 1))) \<le> 2 ^ 64 - 4096"
      by (simp add: example_env_def)
  qed
  then obtain tr where run: "main (example_env ''2M'' ''2m'') = Some (tr, 0)"
    by blast
  have "CheckThpStatus \<in> set tr"
    using misaligned_size_rejected [OF a2 h p2] m2 run by blast
  with run have good: "\<exists>tr. main (example_env ''2M'' ''2m'') = Some (tr, 0)
                         \<and> CheckThpStatus \<in> set tr"
    by blast
  show ?thesis
    using p3 m3 bad p2 m2 good by (intro conjI)
qed

section \<open>C7: the mapping is released exactly once\<close>

lemma example_env_returns:
  "\<exists>tr. main (example_env ''8192'' ''4k'') = Some (tr, 0)"
proof (rule main_nonfatal_returns)
  have p: "parse_size 0 ''8192'' = ([], 8192)"
    by (simp add: parse_eval)
  show "\<not> fatal (example_env ''8192'' ''4k'')"
    by (simp add: fatal_def example_env_def p)
  show "argv (example_env ''8192'' ''4k'') ! 2 = ''4k''
        \<or> argv (example_env ''8192'' ''4k'') ! 2 = ''thp'' \<longrightarrow>
        unat (snd (parse_size 0 (argv (example_env ''8192'' ''4k'') ! 1))) \<le> 2 ^ 64 - 4096"
    by (simp add: example_env_def p)
qed

text \<open>
  C7. Every run that returns and whose \<^verbatim>\<open>mmap\<close> succeeded calls \<^verbatim>\<open>munmap\<close> exactly
  once, on the address and size of the mapping, as its last call, and returns 0: its
  calls are the THP probe, the baseline probe, \<^verbatim>\<open>mmap\<close>, at most one \<^verbatim>\<open>madvise\<close>,
  the final probe, \<^verbatim>\<open>getchar\<close> and \<^verbatim>\<open>munmap\<close>, whatever the probes and
  \<^verbatim>\<open>madvise\<close> return.
\<close>

theorem munmap_exactly_once:
  assumes run: "main env = Some (tr, rc)"
    and mapped: "Mmap map_size flags (Inr addr) \<in> set tr"
  shows "rc = 0 \<and>
         filter is_munmap tr = [Munmap addr map_size] \<and>
         (\<exists>advise. calls tr = [CheckThpStatus, GetVmPTE, Mmap map_size flags (Inr addr)]
                      @ advise @ [GetVmPTE, Getchar, Munmap addr map_size]
                    \<and> filter is_munmap advise = [])"
proof -
  from mapped have mem: "Mmap map_size flags (Inr addr) \<in> set (calls tr)"
    by (simp add: calls_def)
  from main_calls [OF run] consider
    (quiet) "calls tr = []"
    | (probe) "calls tr = [CheckThpStatus, GetVmPTE]"
    | (failed) ms fl err where "calls tr = [CheckThpStatus, GetVmPTE, Mmap ms fl (Inl err)]"
    | (full) ms fl a mode where "rc = 0"
        "calls tr = [CheckThpStatus, GetVmPTE, Mmap ms fl (Inr a)]
              @ calls (madvise_hints mode (thp_status env) a ms (madvise_result env))
              @ [GetVmPTE, Getchar, Munmap a ms]"
    by blast
  then show ?thesis
  proof cases
    case quiet
    with mem show ?thesis by simp
  next
    case probe
    with mem show ?thesis by simp
  next
    case failed
    with mem show ?thesis by simp
  next
    case (full ms fl a mode)
    let ?adv = "calls (madvise_hints mode (thp_status env) a ms (madvise_result env))"
    have adv: "filter is_munmap ?adv = []" and nomap: "Mmap map_size flags (Inr addr) \<notin> set ?adv"
      by (simp_all split: if_splits)
    from mem nomap have same: "ms = map_size" "fl = flags" "a = addr"
      unfolding full(2) by auto
    have "filter is_munmap tr = filter is_munmap (calls tr)"
      by (simp only: is_munmap_calls)
    also have "\<dots> = [Munmap addr map_size]"
      unfolding full(2) same using adv [unfolded same] by simp
    finally have once: "filter is_munmap tr = [Munmap addr map_size]" .
    have "calls tr = [CheckThpStatus, GetVmPTE, Mmap map_size flags (Inr addr)]
              @ calls (madvise_hints mode (thp_status env) addr map_size (madvise_result env))
              @ [GetVmPTE, Getchar, Munmap addr map_size]"
      using full(2) unfolding same .
    with adv [unfolded same] have
      "\<exists>advise. calls tr = [CheckThpStatus, GetVmPTE, Mmap map_size flags (Inr addr)]
                      @ advise @ [GetVmPTE, Getchar, Munmap addr map_size]
                    \<and> filter is_munmap advise = []"
      by blast
    with full(1) once show ?thesis
      by (intro conjI)
  qed
qed

text \<open>
  A run in which the final VmPTE probe fails (and \<^verbatim>\<open>madvise\<close> and \<^verbatim>\<open>munmap\<close> too):
  the mapping of 8192 bytes is released once.
\<close>

theorem munmap_exactly_once_witness:
  "vmpte_after (example_env ''8192'' ''4k'') < 0 \<and>
   (\<exists>tr. main (example_env ''8192'' ''4k'') = Some (tr, 0) \<and>
         Mmap 8192 [MAP_PRIVATE, MAP_ANONYMOUS] (Inr 140737488355328) \<in> set tr \<and>
         filter is_munmap tr = [Munmap 140737488355328 8192])"
proof -
  from example_env_returns obtain tr where
    run: "main (example_env ''8192'' ''4k'') = Some (tr, 0)"
    by blast
  have p: "parse_size 0 ''8192'' = ([], 8192)"
    by (simp add: parse_eval)
  have mapped: "Mmap 8192 [MAP_PRIVATE, MAP_ANONYMOUS] (Inr 140737488355328) \<in> set tr"
    using run
  proof (cases rule: main_cases)
    case (full ms t2 mode fl hps step a stores touched_count)
    from full(2,4,7) have "ms = 8192" "fl = [MAP_PRIVATE, MAP_ANONYMOUS]" "a = 140737488355328"
      by (simp_all add: example_env_def p select_mode_def)
    with full(9) show ?thesis
      by simp
  qed simp_all
  have "filter is_munmap tr = [Munmap 140737488355328 8192]"
    using munmap_exactly_once [OF run mapped] by simp
  with run mapped have
    "\<exists>tr. main (example_env ''8192'' ''4k'') = Some (tr, 0) \<and>
         Mmap 8192 [MAP_PRIVATE, MAP_ANONYMOUS] (Inr 140737488355328) \<in> set tr \<and>
         filter is_munmap tr = [Munmap 140737488355328 8192]"
    by blast
  moreover have "vmpte_after (example_env ''8192'' ''4k'') < 0"
    by (simp add: example_env_def)
  ultimately show ?thesis
    by (intro conjI)
qed

section \<open>C8: the exit status\<close>

text \<open>
  C8. A run of a fatal class (wrong argument count, unparsable size, invalid mode token,
  misaligned size for a huge-page mode, baseline probe failure, \<^verbatim>\<open>mmap\<close> failure)
  returns, with status 1. Any other run returns with status 0, provided the touch loop
  ends, which it does in modes 2m and 1g and, in modes 4k and thp, for every size up to
  \<open>2^64 - 4096\<close>. Of a run that returns, the status is 1 exactly when it is of a fatal
  class and 0 exactly when it reached the interactive checkpoint and the release; the
  results of \<^verbatim>\<open>madvise\<close>, of the final probe and of \<^verbatim>\<open>munmap\<close> play no part.
\<close>

theorem exit_status:
  "(fatal env \<longrightarrow> (\<exists>tr. main env = Some (tr, 1))) \<and>
   (\<not> fatal env \<longrightarrow>
      (argv env ! 2 = ''4k'' \<or> argv env ! 2 = ''thp'' \<longrightarrow>
         unat (snd (parse_size 0 (argv env ! 1))) \<le> 2 ^ 64 - 4096) \<longrightarrow>
      (\<exists>tr. main env = Some (tr, 0))) \<and>
   (\<forall>tr rc. main env = Some (tr, rc) \<longrightarrow>
      (rc = 1) = fatal env \<and>
      (rc = 0) = (\<not> fatal env) \<and>
      (rc = 0) = (Getchar \<in> set tr) \<and>
      (rc = 0) = (filter is_munmap tr \<noteq> []))"
proof (intro conjI impI allI)
  assume "fatal env"
  then show "\<exists>tr. main env = Some (tr, 1)"
    by (rule main_fatal_returns)
next
  assume "\<not> fatal env"
    and "argv env ! 2 = ''4k'' \<or> argv env ! 2 = ''thp'' \<longrightarrow>
         unat (snd (parse_size 0 (argv env ! 1))) \<le> 2 ^ 64 - 4096"
  then show "\<exists>tr. main env = Some (tr, 0)"
    by (rule main_nonfatal_returns)
next
  fix tr rc
  assume run: "main env = Some (tr, rc)"
  have rc: "rc = (if fatal env then 1 else 0)"
    using run by (rule main_exit_status)
  show "(rc = 1) = fatal env"
    using rc by simp
  show "(rc = 0) = (\<not> fatal env)"
    using rc by simp
  from main_calls [OF run] consider
    (quiet) "rc = 1" "calls tr = []"
    | (probe) "rc = 1" "calls tr = [CheckThpStatus, GetVmPTE]"
    | (failed) ms fl err where "rc = 1"
        "calls tr = [CheckThpStatus, GetVmPTE, Mmap ms fl (Inl err)]"
    | (full) ms fl a mode where "rc = 0"
        "calls tr = [CheckThpStatus, GetVmPTE, Mmap ms fl (Inr a)]
              @ calls (madvise_hints mode (thp_status env) a ms (madvise_result env))
              @ [GetVmPTE, Getchar, Munmap a ms]"
    by blast
  then have "(rc = 0) = (Getchar \<in> set (calls tr))
             \<and> (rc = 0) = (filter is_munmap (calls tr) \<noteq> [])"
  proof cases
    case quiet
    then show ?thesis by simp
  next
    case probe
    then show ?thesis by simp
  next
    case failed
    then show ?thesis by simp
  next
    case full
    then show ?thesis by (simp del: calls_madvise_hints)
  qed
  then have both: "(rc = 0) = (Getchar \<in> set tr) \<and> (rc = 0) = (filter is_munmap tr \<noteq> [])"
    unfolding Getchar_calls [symmetric] is_munmap_calls .
  from both show "(rc = 0) = (Getchar \<in> set tr)"
    by (rule conjunct1)
  from both show "(rc = 0) = (filter is_munmap tr \<noteq> [])"
    by (rule conjunct2)
qed

text \<open>
  The misaligned run returns 1; the run in which \<^verbatim>\<open>madvise\<close>, the final probe and
  \<^verbatim>\<open>munmap\<close> all fail returns 0 after the checkpoint.
\<close>

theorem exit_status_witness:
  "fatal (example_env ''3M'' ''2m'') \<and>
   (\<exists>tr. main (example_env ''3M'' ''2m'') = Some (tr, 1)) \<and>
   \<not> fatal (example_env ''8192'' ''4k'') \<and>
   madvise_result (example_env ''8192'' ''4k'') = - 1 \<and>
   vmpte_after (example_env ''8192'' ''4k'') < 0 \<and>
   munmap_result (example_env ''8192'' ''4k'') = - 1 \<and>
   (\<exists>tr. main (example_env ''8192'' ''4k'') = Some (tr, 0) \<and> Getchar \<in> set tr)"
proof -
  have p3: "parse_size 0 ''3M'' = ([], 3145728)"
    by (simp add: parse_eval)
  have p: "parse_size 0 ''8192'' = ([], 8192)"
    by (simp add: parse_eval)
  have f: "fatal (example_env ''3M'' ''2m'')"
    by (simp add: fatal_def example_env_def p3)
  have nf: "\<not> fatal (example_env ''8192'' ''4k'')"
    by (simp add: fatal_def example_env_def p)
  have fit: "argv (example_env ''8192'' ''4k'') ! 2 = ''4k''
        \<or> argv (example_env ''8192'' ''4k'') ! 2 = ''thp'' \<longrightarrow>
        unat (snd (parse_size 0 (argv (example_env ''8192'' ''4k'') ! 1))) \<le> 2 ^ 64 - 4096"
    by (simp add: example_env_def p)
  note bad = exit_status [where env = "example_env ''3M'' ''2m''"]
  note good = exit_status [where env = "example_env ''8192'' ''4k''"]
  from bad have "fatal (example_env ''3M'' ''2m'')
                 \<longrightarrow> (\<exists>tr. main (example_env ''3M'' ''2m'') = Some (tr, 1))"
    by (rule conjunct1)
  with f have r1: "\<exists>tr. main (example_env ''3M'' ''2m'') = Some (tr, 1)"
    by (rule rev_mp)
  from good have "\<not> fatal (example_env ''8192'' ''4k'') \<longrightarrow>
      (argv (example_env ''8192'' ''4k'') ! 2 = ''4k''
       \<or> argv (example_env ''8192'' ''4k'') ! 2 = ''thp'' \<longrightarrow>
         unat (snd (parse_size 0 (argv (example_env ''8192'' ''4k'') ! 1))) \<le> 2 ^ 64 - 4096) \<longrightarrow>
      (\<exists>tr. main (example_env ''8192'' ''4k'') = Some (tr, 0))"
    by (rule conjunct2 [THEN conjunct1])
  from this [THEN mp, OF nf, THEN mp, OF fit] obtain tr where
    run: "main (example_env ''8192'' ''4k'') = Some (tr, 0)"
    by (rule exE)
  from good have "\<forall>tr rc. main (example_env ''8192'' ''4k'') = Some (tr, rc) \<longrightarrow>
      (rc = 1) = fatal (example_env ''8192'' ''4k'') \<and>
      (rc = 0) = (\<not> fatal (example_env ''8192'' ''4k'')) \<and>
      (rc = 0) = (Getchar \<in> set tr) \<and>
      (rc = 0) = (filter is_munmap tr \<noteq> [])"
    by (rule conjunct2 [THEN conjunct2])
  from this [THEN spec, THEN spec, THEN mp, OF run] have "Getchar \<in> set tr"
    by simp
  with run have r0: "\<exists>tr. main (example_env ''8192'' ''4k'') = Some (tr, 0) \<and> Getchar \<in> set tr"
    by (intro exI conjI)
  have e: "madvise_result (example_env ''8192'' ''4k'') = - 1"
    "vmpte_after (example_env ''8192'' ''4k'') < 0"
    "munmap_result (example_env ''8192'' ''4k'') = - 1"
    by (simp_all add: example_env_def)
  show ?thesis
    using f r1 nf e r0 by (intro conjI)
qed

section \<open>C9: the stream of the warnings\<close>

lemma routed_usage: "list_all routed usage"
  by (simp add: usage_def warning_text_def)

lemma routed_parse_size: "list_all routed (fst (parse_size e s))"
proof -
  obtain v ep er where st: "strtoull e s = (v, ep, er)"
    by (cases "strtoull e s") auto
  show ?thesis
    unfolding parse_size_def st
    by (simp add: Let_def warning_text_def split: list.splits option.splits)
qed

lemma routed_select_mode: "list_all routed (fst (select_mode a))"
  by (simp add: select_mode_def warning_text_def)

lemma routed_thp_warnings: "list_all routed (thp_warnings mode status)"
  by (simp add: thp_warnings_def warning_text_def thp_advisory_def)

lemma routed_mmap_failure_report: "list_all routed (mmap_failure_report mode err map_size hps)"
  by (simp add: mmap_failure_report_def warning_text_def)

lemma routed_madvise_hints: "list_all routed (madvise_hints mode status addr map_size ret)"
  by (simp add: madvise_hints_def warning_text_def thp_advisory_def)

lemma routed_stores: "list_all routed (map (\<lambda>(i, v). Store i v) stores)"
  by (induction stores) auto

lemma routed_vmpte_report: "list_all routed (vmpte_report after)"
  by (simp add: vmpte_report_def warning_text_def thp_advisory_def)

lemma routed_theoretical_overheads: "list_all routed (theoretical_overheads map_size)"
  by (simp add: theoretical_overheads_def warning_text_def)

lemma routed_cleanup: "list_all routed (cleanup addr map_size ret)"
  by (simp add: cleanup_def warning_text_def thp_advisory_def)

lemmas routed_parts = routed_usage routed_parse_size routed_thp_warnings
  routed_mmap_failure_report routed_madvise_hints routed_stores routed_vmpte_report
  routed_theoretical_overheads routed_cleanup

lemma main_routed:
  assumes "main env = Some (tr, rc)"
  shows "list_all routed tr"
  using assms
proof (cases rule: main_cases)
  case usage
  then show ?thesis by (simp add: routed_parts)
next
  case parse
  then show ?thesis by (simp add: routed_parts)
next
  case (mode map_size t2)
  then show ?thesis using routed_select_mode [of "argv env ! 2"] by simp
next
  case (align map_size t2 mode flags hps step)
  then show ?thesis using routed_select_mode [of "argv env ! 2"]
    by (simp add: warning_text_def)
next
  case (baseline map_size t2 mode flags hps step)
  then show ?thesis using routed_select_mode [of "argv env ! 2"]
    by (simp add: warning_text_def routed_parts)
next
  case (mmap map_size t2 mode flags hps step err)
  then show ?thesis using routed_select_mode [of "argv env ! 2"]
    by (simp add: warning_text_def routed_parts)
next
  case (full map_size t2 mode flags hps step addr stores touched_count)
  then show ?thesis using routed_select_mode [of "argv env ! 2"]
    by (simp add: warning_text_def routed_parts)
qed

text \<open>
  C9 (as amended). Every warning diagnostic other than the two advisory THP-policy
  warnings (the \<^verbatim>\<open>madvise\<close> failure warnings, the final-probe warning, the
  \<^verbatim>\<open>munmap\<close> failure report) is written to standard error; the two advisory
  THP-policy warnings are written to standard output.
\<close>

theorem warnings_stream:
  assumes "main env = Some (tr, rc)" and "Print st fmt args \<in> set tr"
    and "warning_text fmt"
  shows "st = (if thp_advisory fmt then Stdout else Stderr)"
proof -
  have "list_all routed tr"
    using assms(1) by (rule main_routed)
  then have "\<forall>ev \<in> set tr. routed ev"
    by (simp only: list_all_iff)
  then have "routed (Print st fmt args)"
    using assms(2) by (rule bspec)
  with assms(3) show ?thesis
    by simp
qed

text \<open>
  The run of \<^verbatim>\<open>4096 thp\<close> in the example environment with the THP policy "never": one
  round of the touch loop, and every part of the run in program order.
\<close>

lemma thp_run:
  "main ((example_env ''4096'' ''thp'')\<lparr>thp_status := THP_NEVER\<rparr>)
     = Some ([Print Stdout ''Mode: Standard anonymous mapping (allowing THP)'' []]
          @ [CheckThpStatus] @ thp_warnings MODE_THP THP_NEVER
          @ [GetVmPTE]
          @ [Print Stdout ''Initial VmPTE: %ld kB'' [],
             Print Stdout ''Mapping size: %zu bytes (%.2f MB / %.2f GB)'' [4096],
             Print Stdout ''--- Mapping Memory ---'' [],
             Mmap 4096 [MAP_PRIVATE, MAP_ANONYMOUS] (Inr 140737488355328)]
          @ madvise_hints MODE_THP THP_NEVER 140737488355328 4096 (- 1)
          @ [Print Stdout ''--- Touching Memory (1 byte per %zu KB page/stride) ---''
               [PAGE_SIZE_4K div 1024]]
          @ map (\<lambda>(i, v). Store i v) [(0, 0)]
          @ [Print Stdout ''Touched %zu strides.'' [1]]
          @ vmpte_report (- 1)
          @ theoretical_overheads 4096
          @ cleanup 140737488355328 4096 (- 1), 0)"
proof -
  let ?env = "(example_env ''4096'' ''thp'')\<lparr>thp_status := THP_NEVER\<rparr>"
  have p: "parse_size 0 ''4096'' = ([], 4096)"
    by (simp add: parse_eval)
  have loop: "touch_loop 4096 PAGE_SIZE_4K 0 [] 0 = Some ([(0, 0)], 1)"
    by (simp add: touch_loop.simps PAGE_SIZE_4K_def)
  have "main ?env
     = Some ([Print Stdout ''Mode: Standard anonymous mapping (allowing THP)'' []]
          @ [CheckThpStatus] @ thp_warnings MODE_THP (thp_status ?env)
          @ [GetVmPTE]
          @ [Print Stdout ''Initial VmPTE: %ld kB'' [],
             Print Stdout ''Mapping size: %zu bytes (%.2f MB / %.2f GB)'' [4096],
             Print Stdout ''--- Mapping Memory ---'' [],
             Mmap 4096 [MAP_PRIVATE, MAP_ANONYMOUS] (Inr 140737488355328)]
          @ madvise_hints MODE_THP (thp_status ?env) 140737488355328 4096 (madvise_result ?env)
          @ [Print Stdout ''--- Touching Memory (1 byte per %zu KB page/stride) ---''
               [PAGE_SIZE_4K div 1024]]
          @ map (\<lambda>(i, v). Store i v) [(0, 0)]
          @ [Print Stdout ''Touched %zu strides.'' [1]]
          @ vmpte_report (vmpte_after ?env)
          @ theoretical_overheads 4096
          @ cleanup 140737488355328 4096 (munmap_result ?env), 0)"
  proof (rule main_full_run)
    show "length (argv ?env) = 3"
      by (simp add: example_env_def)
    show "parse_size 0 (argv ?env ! 1) = ([], 4096)"
      by (simp add: example_env_def p)
    show "(4096 :: size_t) \<noteq> 0"
      by simp
    show "select_mode (argv ?env ! 2)
          = ([Print Stdout ''Mode: Standard anonymous mapping (allowing THP)'' []],
             Some (MODE_THP, [MAP_PRIVATE, MAP_ANONYMOUS], 0, PAGE_SIZE_4K))"
      by (simp add: example_env_def select_mode_def)
    show "\<not> ((MODE_THP = MODE_2M \<or> MODE_THP = MODE_1G) \<and> (4096 :: size_t) mod 0 \<noteq> 0)"
      by simp
    show "\<not> vmpte_before ?env < 0"
      by (simp add: example_env_def)
    show "mmap_result ?env = Inr 140737488355328"
      by (simp add: example_env_def)
    show "touch_loop 4096 PAGE_SIZE_4K 0 [] 0 = Some ([(0, 0)], 1)"
      by (rule loop)
  qed
  then show ?thesis
    by (simp add: example_env_def)
qed

text \<open>
  In that run, which returns 0, the advisory warning of line 195 is printed with
  \<^verbatim>\<open>printf\<close>: a warning diagnostic on standard output.
\<close>

theorem thp_warning_on_stdout_counterexample:
  "warning_text ''Warning: System THP is set to 'never'. Kernel will likely use 4KB pages.'' \<and>
   main ((example_env ''4096'' ''thp'')\<lparr>thp_status := THP_NEVER\<rparr>) \<noteq> None \<and>
   snd (the (main ((example_env ''4096'' ''thp'')\<lparr>thp_status := THP_NEVER\<rparr>))) = 0 \<and>
   Print Stdout ''Warning: System THP is set to 'never'. Kernel will likely use 4KB pages.'' []
     \<in> set (fst (the (main ((example_env ''4096'' ''thp'')\<lparr>thp_status := THP_NEVER\<rparr>))))"
proof -
  note run = thp_run
  have w: "warning_text
             ''Warning: System THP is set to 'never'. Kernel will likely use 4KB pages.''"
    by (simp add: warning_text_def)
  have "Print Stdout ''Warning: System THP is set to 'never'. Kernel will likely use 4KB pages.'' []
          \<in> set (thp_warnings MODE_THP THP_NEVER)"
    by (simp add: thp_warnings_def)
  then show ?thesis
    unfolding run using w by simp
qed

text \<open>
  In the same run the final probe fails, and its warning is on standard error and not
  on standard output.
\<close>

theorem warnings_stream_witness:
  "warning_text ''Warning: Could not get final VmPTE. Change calculation skipped.'' \<and>
   \<not> thp_advisory ''Warning: Could not get final VmPTE. Change calculation skipped.'' \<and>
   main ((example_env ''4096'' ''thp'')\<lparr>thp_status := THP_NEVER\<rparr>) \<noteq> None \<and>
   Print Stdout ''Warning: Could not get final VmPTE. Change calculation skipped.'' []
     \<notin> set (fst (the (main ((example_env ''4096'' ''thp'')\<lparr>thp_status := THP_NEVER\<rparr>)))) \<and>
   Print Stderr ''Warning: Could not get final VmPTE. Change calculation skipped.'' []
     \<in> set (fst (the (main ((example_env ''4096'' ''thp'')\<lparr>thp_status := THP_NEVER\<rparr>))))"
proof -
  let ?env = "(example_env ''4096'' ''thp'')\<lparr>thp_status := THP_NEVER\<rparr>"
  let ?w = "''Warning: Could not get final VmPTE. Change calculation skipped.''"
  from thp_run obtain tr where run: "main ?env = Some (tr, 0)"
    and tr: "Print Stderr ?w [] \<in> set tr"
    by (simp add: vmpte_report_def)
  have w: "warning_text ?w" and a: "\<not> thp_advisory ?w"
    by (simp_all add: warning_text_def thp_advisory_def)
  have "Print Stdout ?w [] \<notin> set tr"
  proof
    assume "Print Stdout ?w [] \<in> set tr"
    with run have "Stdout = (if thp_advisory ?w then Stdout else Stderr)"
      using w by (rule warnings_stream)
    with a show False
      by simp
  qed
  with run tr w a show ?thesis
    by simp
qed

section \<open>C10: zero as the error sentinel\<close>

text \<open>
  C10. \<^verbatim>\<open>parse_size\<close> returns a nonzero value exactly when it accepted the input
  (printed no diagnostic); on every failure path it prints one diagnostic on standard
  error and returns 0. \<^verbatim>\<open>main\<close> treats a return value of 0 as fatal, and no
  \<^verbatim>\<open>mmap\<close> call of any run has the size 0.
\<close>

theorem parse_size_zero_sentinel:
  "(fst (parse_size e s) = []) = (snd (parse_size e s) \<noteq> 0) \<and>
   (fst (parse_size e s) = [] \<or> (\<exists>msg. parse_size e s = ([Print Stderr msg []], 0))) \<and>
   (length (argv env) = 3 \<longrightarrow> snd (parse_size 0 (argv env ! 1)) = 0 \<longrightarrow>
      main env = Some (fst (parse_size 0 (argv env ! 1)), 1)) \<and>
   (\<forall>tr rc map_size flags res.
      main env = Some (tr, rc) \<longrightarrow> Mmap map_size flags res \<in> set tr \<longrightarrow> map_size \<noteq> 0)"
proof (intro conjI allI impI)
  show "(fst (parse_size e s) = []) = (snd (parse_size e s) \<noteq> 0)"
    using parse_size_outcome [of e s] by (auto simp: rejected_eq)
  show "fst (parse_size e s) = [] \<or> (\<exists>msg. parse_size e s = ([Print Stderr msg []], 0))"
    using parse_size_outcome [of e s] by (auto simp: rejected_eq)
next
  assume "length (argv env) = 3" and "snd (parse_size 0 (argv env ! 1)) = 0"
  then show "main env = Some (fst (parse_size 0 (argv env ! 1)), 1)"
    by (rule main_parse_failure)
next
  fix tr rc map_size flags res
  assume run: "main env = Some (tr, rc)" and ev: "Mmap map_size flags res \<in> set tr"
  from ev have mem: "Mmap map_size flags res \<in> set (filter is_mmap tr)"
    by simp
  from main_mmap_calls [OF run] consider
    "filter is_mmap tr = []"
    | ms fl r where "filter is_mmap tr = [Mmap ms fl r]" and "ms \<noteq> 0"
    by blast
  then show "map_size \<noteq> 0"
  proof cases
    case 1
    with mem show ?thesis
      by (simp only: list.set empty_iff)
  next
    case (2 ms fl r)
    from mem have "Mmap map_size flags res = Mmap ms fl r"
      unfolding 2(1) by simp
    with 2(2) show ?thesis
      by simp
  qed
qed

text \<open>The input "0K" has the value zero: it is rejected and the run ends with status 1.\<close>

theorem parse_size_zero_sentinel_witness:
  "(fst (parse_size 0 ''0K'') = []) = (snd (parse_size 0 ''0K'') \<noteq> 0) \<and>
   snd (parse_size 0 ''0K'') = 0 \<and>
   main (example_env ''0K'' ''4k'') = Some (fst (parse_size 0 ''0K''), 1)"
proof -
  have z: "snd (parse_size 0 ''0K'') = 0"
    by (simp add: parse_eval)
  have len: "length (argv (example_env ''0K'' ''4k'')) = 3"
    and arg: "argv (example_env ''0K'' ''4k'') ! 1 = ''0K''"
    by (simp_all add: example_env_def)
  from parse_size_zero_sentinel [where e = 0 and s = "''0K''"
      and env = "example_env ''0K'' ''4k''"] z len arg
  show ?thesis
    by simp
qed

end
